theory Spec2Isabelle
  imports Complex_Main "HOL-Library.Sublist"
begin

section \<open>SmartSpend: transaction normalization and insights aggregation\<close>

text \<open>
  The backend (\<^verbatim>\<open>src/unnamed/part_000\<close>) normalizes transaction records in two places,
  the CSV upload route and the \<^verbatim>\<open>/api/insights\<close> route, and aggregates them in
  \<^verbatim>\<open>computeInsights\<close>. The frontend (\<^verbatim>\<open>app.component.ts\<close>, \<^verbatim>\<open>refreshData\<close>)
  normalizes the banking aggregator's records before it posts them.

  Numbers are modelled as exact rationals: the rounding and the overflow of IEEE-754
  doubles are outside the model. String characters are bytes, which is enough for the
  ASCII classes the code tests and for comparing labels.
\<close>

subsection \<open>JSON values\<close>

text \<open>
  What \<^verbatim>\<open>express.json()\<close> hands to a route: the values of JSON, and \<^verbatim>\<open>undefined\<close>
  for what is missing. An object lists its own members; \<^verbatim>\<open>JSON.parse\<close> never produces
  the same key twice.
\<close>

datatype jsval =
    JUndefined
  | JNull
  | JBool bool
  | JNum rat
  | JStr string
  | JArr "jsval list"
  | JObj "(string \<times> jsval) list"

text \<open>The result of a numeric conversion: a number or \<^verbatim>\<open>NaN\<close>.\<close>

datatype jsnum = Num rat | NaN

text \<open>ToBoolean: the falsy values are undefined, null, false, 0 and the empty string.\<close>

fun truthy :: "jsval \<Rightarrow> bool" where
  "truthy JUndefined = False"
| "truthy JNull = False"
| "truthy (JBool b) = b"
| "truthy (JNum q) = (q \<noteq> 0)"
| "truthy (JStr s) = (s \<noteq> [])"
| "truthy (JArr xs) = True"
| "truthy (JObj kvs) = True"

text \<open>\<^verbatim>\<open>a || b\<close> and \<^verbatim>\<open>a && b\<close> return one of their operands.\<close>

definition js_or :: "jsval \<Rightarrow> jsval \<Rightarrow> jsval" where
  "js_or a b = (if truthy a then a else b)"

definition js_and :: "jsval \<Rightarrow> jsval \<Rightarrow> jsval" where
  "js_and a b = (if truthy a then b else a)"

definition nullish :: "jsval \<Rightarrow> bool" where
  "nullish v = (v = JUndefined \<or> v = JNull)"

text \<open>
  \<^verbatim>\<open>t.k\<close> on a value that is neither null nor undefined, for the member names the
  program reads (\<^verbatim>\<open>date\<close>, \<^verbatim>\<open>amount\<close>, \<^verbatim>\<open>category\<close>, ...): an object's own member, and
  undefined on an object without it and on every number, string, boolean and array
  (none of these names is inherited from a prototype).
\<close>

fun js_get :: "jsval \<Rightarrow> string \<Rightarrow> jsval" where
  "js_get (JObj kvs) k = (case map_of kvs k of Some v \<Rightarrow> v | None \<Rightarrow> JUndefined)"
| "js_get v k = JUndefined"

text \<open>\<^verbatim>\<open>x?.k\<close>: undefined when \<^verbatim>\<open>x\<close> is null or undefined.\<close>

definition js_get_opt :: "jsval \<Rightarrow> string \<Rightarrow> jsval" where
  "js_get_opt x k = (if nullish x then JUndefined else js_get x k)"

fun isArray :: "jsval \<Rightarrow> bool" where
  "isArray (JArr xs) = True"
| "isArray v = False"

text \<open>\<^verbatim>\<open>x[0]\<close> on an array: its first element, undefined on the empty array.\<close>

fun first_element :: "jsval \<Rightarrow> jsval" where
  "first_element (JArr (x # xs)) = x"
| "first_element v = JUndefined"

subsection \<open>Transactions\<close>

text \<open>
  The object both normalizers build and \<^verbatim>\<open>computeInsights\<close> reads. The fields hold
  whatever the normalizer put there.
\<close>

record transaction =
  date :: jsval
  name :: jsval
  amount :: jsval
  category :: jsval

datatype exn = TypeError

subsection \<open>The normalizer of the insights route\<close>

text \<open>
  \<^verbatim>\<open>
  transactions.map(t => ({
    date: t.date || t.datetime || t.authorized_date,
    amount: t.amount,
    category: t.category || t.personal_finance_category?.primary || 'Other',
    name: t.name || t.merchant_name || '',
  }))
  \<close>
  Reading \<^verbatim>\<open>t.date\<close> throws a TypeError when \<^verbatim>\<open>t\<close> is null or undefined.
\<close>

definition normalized :: "jsval \<Rightarrow> exn + transaction" where
  "normalized t =
     (if nullish t then Inl TypeError
      else Inr \<lparr>
        date = js_or (js_or (js_get t ''date'') (js_get t ''datetime''))
                 (js_get t ''authorized_date''),
        name = js_or (js_or (js_get t ''name'') (js_get t ''merchant_name'')) (JStr ''''),
        amount = js_get t ''amount'',
        category = js_or (js_or (js_get t ''category'')
                     (js_get_opt (js_get t ''personal_finance_category'') ''primary''))
                     (JStr ''Other'') \<rparr>)"

text \<open>\<^verbatim>\<open>Array.prototype.map\<close> stops at the first element whose callback throws.\<close>

fun normalized_all :: "jsval list \<Rightarrow> exn + transaction list" where
  "normalized_all [] = Inr []"
| "normalized_all (t # ts) =
     (case normalized t of
        Inl e \<Rightarrow> Inl e
      | Inr n \<Rightarrow> (case normalized_all ts of Inl e \<Rightarrow> Inl e | Inr ns \<Rightarrow> Inr (n # ns)))"

subsection \<open>The normalizer of the frontend\<close>

text \<open>
  \<^verbatim>\<open>refreshData\<close> in \<^verbatim>\<open>app.component.ts\<close>, applied to each record of the banking
  aggregator before the batch is posted to the insights route (the file holds a second
  copy of the component whose mapping lacks the two default literals and orders the
  alternatives of the category in the same way):
  \<^verbatim>\<open>
  date: t.date,
  name: t.name || t.merchant_name || 'Unknown',
  amount: t.amount,
  category: t.personal_finance_category?.primary ||
           (Array.isArray(t.category) ? t.category[0] : t.category) ||
           'Other'
  \<close>
\<close>

definition refreshData_map :: "jsval \<Rightarrow> exn + transaction" where
  "refreshData_map t =
     (if nullish t then Inl TypeError
      else Inr \<lparr>
        date = js_get t ''date'',
        name = js_or (js_or (js_get t ''name'') (js_get t ''merchant_name''))
                 (JStr ''Unknown''),
        amount = js_get t ''amount'',
        category = js_or (js_or
                     (js_get_opt (js_get t ''personal_finance_category'') ''primary'')
                     (if isArray (js_get t ''category'')
                      then first_element (js_get t ''category'')
                      else js_get t ''category''))
                     (JStr ''Other'') \<rparr>)"

subsection \<open>The normalizer of the CSV upload route\<close>

text \<open>
  A row as \<^verbatim>\<open>csv-parse\<close> delivers it with \<^verbatim>\<open>columns: true\<close>: the header's column
  names with the row's cells, all strings, each column name once. A cell read under a
  name the header does not have is undefined.
\<close>

type_synonym csv_record = "(string \<times> string) list"

definition cell :: "csv_record \<Rightarrow> string \<Rightarrow> jsval" where
  "cell r k = (case map_of r k of Some s \<Rightarrow> JStr s | None \<Rightarrow> JUndefined)"

text \<open>
  The order in which \<^verbatim>\<open>Object.keys\<close> and \<^verbatim>\<open>Object.entries\<close> list the own members of
  an object (OrdinaryOwnPropertyKeys): first the keys that are array indices, in
  ascending numeric order, then the other keys in the order they were created. An array
  index is the canonical decimal form of an integer from 0 to \<open>2^32 - 2\<close>.
\<close>

definition is_digit :: "char \<Rightarrow> bool" where
  "is_digit c = (c \<in> set ''0123456789'')"

definition digit_value :: "char \<Rightarrow> nat" where
  "digit_value c = of_char c - 48"

definition decimal :: "string \<Rightarrow> nat" where
  "decimal ds = foldl (\<lambda>n c. 10 * n + digit_value c) 0 ds"

definition is_array_index :: "string \<Rightarrow> bool" where
  "is_array_index k =
     (k \<noteq> [] \<and> list_all is_digit k \<and> (k = ''0'' \<or> hd k \<noteq> CHR ''0'')
      \<and> decimal k \<le> 4294967294)"

definition own_property_order :: "(string \<times> 'a) list \<Rightarrow> (string \<times> 'a) list" where
  "own_property_order ps =
     sort_key (\<lambda>p. decimal (fst p)) (filter (\<lambda>p. is_array_index (fst p)) ps)
     @ filter (\<lambda>p. \<not> is_array_index (fst p)) ps"

text \<open>\<^verbatim>\<open>record[Object.keys(record)[0]]\<close>; with no key at all the member read is
  \<^verbatim>\<open>record["undefined"]\<close>.\<close>

definition first_column :: "csv_record \<Rightarrow> jsval" where
  "first_column r =
     (case own_property_order r of [] \<Rightarrow> cell r ''undefined'' | p # ps \<Rightarrow> cell r (fst p))"

text \<open>\<^verbatim>\<open>.toString()\<close> of what the alternatives \<^verbatim>\<open>record.amount || ... || '0'\<close> yield:
  always a string, a cell or the literal.\<close>

fun string_value :: "jsval \<Rightarrow> string" where
  "string_value (JStr s) = s"
| "string_value v = []"

text \<open>\<^verbatim>\<open>.replace(/[^\d.-]/g, '')\<close>: every character other than an ASCII digit, a dot
  and a minus sign is removed.\<close>

definition replace_non_numeric :: "string \<Rightarrow> string" where
  "replace_non_numeric s = filter (\<lambda>c. is_digit c \<or> c = CHR ''.'' \<or> c = CHR ''-'') s"

text \<open>
  \<^verbatim>\<open>parseFloat\<close> on a string of digits, dots and minus signs (after the replacement no
  white space, plus sign, exponent or \<^verbatim>\<open>Infinity\<close> is left): the longest prefix of the
  form \<open>[-] digits [. digits]\<close> or \<open>[-] . digits\<close> is read as a decimal number and the rest
  is ignored; with no such prefix the result is \<^verbatim>\<open>NaN\<close>.
\<close>

definition parseFloat :: "string \<Rightarrow> jsnum" where
  "parseFloat s =
     (let negative = (s \<noteq> [] \<and> hd s = CHR ''-'');
          r = (if negative then tl s else s);
          int_part = takeWhile is_digit r;
          r1 = dropWhile is_digit r;
          frac_part = (if r1 \<noteq> [] \<and> hd r1 = CHR ''.'' then takeWhile is_digit (tl r1) else [])
      in if int_part = [] \<and> frac_part = [] then NaN
         else Num ((if negative then - 1 else 1)
                * (of_nat (decimal int_part)
                   + of_nat (decimal frac_part) / 10 ^ length frac_part)))"

text \<open>\<^verbatim>\<open>x || 0\<close> on a number: \<^verbatim>\<open>NaN\<close> and 0 are falsy.\<close>

fun or_zero :: "jsnum \<Rightarrow> rat" where
  "or_zero NaN = 0"
| "or_zero (Num q) = (if q = 0 then 0 else q)"

text \<open>
  \<^verbatim>\<open>
  records.push({
    date: record.date || record.Date || record.TRANSACTION_DATE || record[Object.keys(record)[0]],
    name: record.description || record.Description || record.NAME || record.Merchant || '',
    amount: parseFloat(
      (record.amount || record.Amount || record.DEBIT || record.CREDIT || '0')
        .toString().replace(/[^\d.-]/g, '')
    ) || 0,
    category: record.category || record.Category || 'Other',
  });
  \<close>
\<close>

definition upload_csv_record :: "csv_record \<Rightarrow> transaction" where
  "upload_csv_record r =
     \<lparr> date = js_or (js_or (js_or (cell r ''date'') (cell r ''Date''))
                (cell r ''TRANSACTION_DATE'')) (first_column r),
       name = js_or (js_or (js_or (js_or (cell r ''description'') (cell r ''Description''))
                (cell r ''NAME'')) (cell r ''Merchant'')) (JStr []),
       amount = JNum (or_zero (parseFloat (replace_non_numeric (string_value
                  (js_or (js_or (js_or (js_or (cell r ''amount'') (cell r ''Amount''))
                     (cell r ''DEBIT'')) (cell r ''CREDIT'')) (JStr ''0'')))))),
       category = js_or (js_or (cell r ''category'') (cell r ''Category'')) (JStr ''Other'') \<rparr>"

subsection \<open>The amount as the specification words it\<close>

text \<open>
  The specification's sentence on the amount, taken literally, for comparison with
  \<^const>\<open>upload_csv_record\<close>: the first alias present in the record is taken; every
  character is removed that is not a digit, a decimal point or a leading minus sign;
  the rest is parsed as a decimal number, and a failure yields 0.
\<close>

definition spec_first_present :: "csv_record \<Rightarrow> string list \<Rightarrow> string option" where
  "spec_first_present r aliases =
     (case filter (\<lambda>k. map_of r k \<noteq> None) aliases of [] \<Rightarrow> None | k # ks \<Rightarrow> map_of r k)"

definition spec_strip :: "string \<Rightarrow> string" where
  "spec_strip s =
     (let kept = filter (\<lambda>c. is_digit c \<or> c = CHR ''.'' \<or> c = CHR ''-'') s
      in case kept of
           [] \<Rightarrow> []
         | c # cs \<Rightarrow> c # filter (\<lambda>d. d \<noteq> CHR ''-'') cs)"

definition spec_parse_decimal :: "string \<Rightarrow> rat" where
  "spec_parse_decimal s =
     (let negative = (s \<noteq> [] \<and> hd s = CHR ''-'');
          r = (if negative then tl s else s);
          int_part = takeWhile is_digit r;
          r1 = dropWhile is_digit r;
          frac_part = (if r1 \<noteq> [] \<and> hd r1 = CHR ''.'' then tl r1 else [])
      in if (int_part = [] \<and> frac_part = []) \<or> \<not> list_all is_digit frac_part
            \<or> (r1 \<noteq> [] \<and> hd r1 \<noteq> CHR ''.'')
         then 0
         else (if negative then - 1 else 1)
                * (of_nat (decimal int_part)
                   + of_nat (decimal frac_part) / 10 ^ length frac_part))"

definition spec_amount :: "csv_record \<Rightarrow> rat" where
  "spec_amount r =
     (case spec_first_present r [''amount'', ''Amount'', ''DEBIT'', ''CREDIT''] of
        None \<Rightarrow> 0
      | Some s \<Rightarrow> spec_parse_decimal (spec_strip s))"

subsection \<open>An alias chain as the specification words it\<close>

text \<open>
  The specification's reading of a chain of aliases, for comparison with the two
  normalizers: the aliases are consulted in their order, one bound to a falsy value is
  passed over like an absent one, and when none is left the default is taken.
\<close>

fun spec_first_truthy :: "jsval list \<Rightarrow> jsval \<Rightarrow> jsval" where
  "spec_first_truthy [] d = d"
| "spec_first_truthy (v # vs) d = (if truthy v then v else spec_first_truthy vs d)"

subsection \<open>Conversions of the JavaScript runtime\<close>

text \<open>
  \<^verbatim>\<open>computeInsights\<close> converts what it reads: \<^verbatim>\<open>Number(t.amount)\<close>, the category used as
  a member name, the fields printed by \<^verbatim>\<open>console.log\<close>, and \<^verbatim>\<open>+\<close> and \<^verbatim>\<open>-\<close> on the
  accumulated values. What belongs to the runtime or to a library and not to the
  repository is a parameter of the model, and every theorem holds for all of them:
  \<^item> \<^verbatim>\<open>StringToNumber\<close>, the numeric reading of a string,
  \<^item> \<^verbatim>\<open>NumberToString\<close>, the decimal rendering of a number,
  \<^item> \<^verbatim>\<open>NativeSource\<close>, the text \<^verbatim>\<open>Function.prototype.toString\<close> gives for the built-in
    method of \<^verbatim>\<open>Object.prototype\<close> with the given name,
  \<^item> \<^verbatim>\<open>DayjsRaises\<close>, whether the library call \<^verbatim>\<open>dayjs(v)\<close> raises on an array or an
    object \<^verbatim>\<open>v\<close>; this depends on the library's version (some take an object with a
    truthy member \<^verbatim>\<open>$isDayjsObject\<close> for one of their own and call its missing method
    \<^verbatim>\<open>clone\<close>).
\<close>

record runtime =
  StringToNumber :: "string \<Rightarrow> jsnum"
  NumberToString :: "rat \<Rightarrow> string"
  NativeSource :: "string \<Rightarrow> string"
  DayjsRaises :: "jsval \<Rightarrow> bool"

text \<open>
  A conversion to a string or to a number raises a TypeError on an object that has a
  member of its own called \<^verbatim>\<open>toString\<close>: a member from JSON is never a function, so
  ToPrimitive finds no method that returns a primitive value. An object without such a
  member converts by the inherited methods (a member \<^verbatim>\<open>valueOf\<close> of its own is passed
  over). An array converts by joining its elements and raises when an element does.
  \<^const>\<open>JUndefined\<close> and the other values never raise.
\<close>

fun unconvertible :: "jsval \<Rightarrow> bool" where
  "unconvertible (JObj kvs) = (map_of kvs ''toString'' \<noteq> None)"
| "unconvertible (JArr xs) = list_ex unconvertible xs"
| "unconvertible v = False"

text \<open>The two conversions below give the result of a conversion that does not raise.\<close>

fun join_comma :: "string list \<Rightarrow> string" where
  "join_comma [] = []"
| "join_comma [s] = s"
| "join_comma (s # t # ss) = s @ '','' @ join_comma (t # ss)"

text \<open>ToString; an array joins its elements with commas, null and undefined elements
  giving the empty string.\<close>

fun to_string :: "runtime \<Rightarrow> jsval \<Rightarrow> string" where
  "to_string rt JUndefined = ''undefined''"
| "to_string rt JNull = ''null''"
| "to_string rt (JBool b) = (if b then ''true'' else ''false'')"
| "to_string rt (JNum q) = NumberToString rt q"
| "to_string rt (JStr s) = s"
| "to_string rt (JArr xs) =
     join_comma (map (\<lambda>x. if x = JUndefined \<or> x = JNull then [] else to_string rt x) xs)"
| "to_string rt (JObj kvs) = ''[object Object]''"

text \<open>ToNumber, as \<^verbatim>\<open>Number(v)\<close> applies it; arrays and objects are first converted to
  strings.\<close>

fun to_number :: "runtime \<Rightarrow> jsval \<Rightarrow> jsnum" where
  "to_number rt JUndefined = NaN"
| "to_number rt JNull = Num 0"
| "to_number rt (JBool b) = Num (if b then 1 else 0)"
| "to_number rt (JNum q) = Num q"
| "to_number rt (JStr s) = StringToNumber rt s"
| "to_number rt (JArr xs) = StringToNumber rt (to_string rt (JArr xs))"
| "to_number rt (JObj kvs) = StringToNumber rt (to_string rt (JObj kvs))"

subsection \<open>The accumulator object\<close>

text \<open>
  \<^verbatim>\<open>const categoryTotals = {}\<close> is an ordinary object: its own members in the order of
  their creation, and behind them the members every object inherits from
  \<^verbatim>\<open>Object.prototype\<close>. A member holds a number, or a string once \<^verbatim>\<open>+\<close> has
  concatenated.
\<close>

datatype total = TNum rat | TStr string

type_synonym category_totals = "(string \<times> total) list"

text \<open>The methods of \<^verbatim>\<open>Object.prototype\<close>, all writable data properties; \<^verbatim>\<open>__proto__\<close> is
  an accessor and is treated apart.\<close>

definition object_prototype_methods :: "string list" where
  "object_prototype_methods =
     [''constructor'', ''__defineGetter__'', ''__defineSetter__'', ''hasOwnProperty'',
      ''__lookupGetter__'', ''__lookupSetter__'', ''isPrototypeOf'',
      ''propertyIsEnumerable'', ''toString'', ''valueOf'', ''toLocaleString'']"

definition inherited_names :: "string list" where
  "inherited_names = ''__proto__'' # object_prototype_methods"

fun truthy_total :: "total \<Rightarrow> bool" where
  "truthy_total (TNum n) = (n \<noteq> 0)"
| "truthy_total (TStr s) = (s \<noteq> [])"

text \<open>\<^verbatim>\<open>v + expenseAmount\<close>: addition of two numbers, concatenation when the left
  operand is a string.\<close>

fun plus_amount :: "runtime \<Rightarrow> total \<Rightarrow> rat \<Rightarrow> total" where
  "plus_amount rt (TNum n) e = TNum (n + e)"
| "plus_amount rt (TStr s) e = TStr (s @ NumberToString rt e)"

text \<open>Writing an own member: an existing member keeps its place, a new one is created
  last.\<close>

fun assign :: "category_totals \<Rightarrow> string \<Rightarrow> total \<Rightarrow> category_totals" where
  "assign [] k v = [(k, v)]"
| "assign (p # ps) k v = (if fst p = k then (k, v) # ps else p # assign ps k v)"

text \<open>
  \<^verbatim>\<open>categoryTotals[cat] = (categoryTotals[cat] || 0) + expenseAmount\<close>.
  \<^item> An own member is read, replaced by 0 when falsy, added to and written back.
  \<^item> With no own member \<^verbatim>\<open>__proto__\<close>, the read calls the inherited getter and yields
    \<^verbatim>\<open>Object.prototype\<close>, an object and so truthy; the sum is a string, and the inherited
    setter ignores a value that is neither an object nor null: nothing is stored.
  \<^item> With no own member but an inherited method of that name, the read yields the
    function; \<^verbatim>\<open>+\<close> converts it to its source text and concatenates; the write creates
    an own member holding that string.
  \<^item> Otherwise the read yields undefined, and \<open>0 + expenseAmount\<close> is stored in a new
    member.
\<close>

definition accumulate :: "runtime \<Rightarrow> category_totals \<Rightarrow> string \<Rightarrow> rat \<Rightarrow> category_totals" where
  "accumulate rt store cat e =
     (case map_of store cat of
        Some v \<Rightarrow> assign store cat (plus_amount rt (if truthy_total v then v else TNum 0) e)
      | None \<Rightarrow>
          if cat = ''__proto__'' then store
          else if cat \<in> set object_prototype_methods
          then assign store cat (TStr (NativeSource rt cat @ NumberToString rt e))
          else assign store cat (TNum (0 + e)))"

subsection \<open>computeInsights\<close>

text \<open>
  \<^verbatim>\<open>
  for (const t of transactions) {
    const amount = Number(t.amount) || 0;
    const txDate = dayjs(t.date);
    const expenseAmount = Math.abs(amount);
    if (expenseAmount > 0) {
      totalThisMonth += expenseAmount;
      const cat = (t.category && (Array.isArray(t.category) ? t.category[0] : t.category)) || 'Other';
      categoryTotals[cat] = (categoryTotals[cat] || 0) + expenseAmount;
    }
  }
  \<close>
  \<^verbatim>\<open>thisMonthStart\<close> and \<^verbatim>\<open>txDate\<close> are computed and never used: no date takes part in
  the result. The \<^verbatim>\<open>console.log\<close> call of each iteration (left out above) prints and
  does not change the result; the conversions in its template literal can raise, like
  \<^verbatim>\<open>Number\<close>, \<^verbatim>\<open>dayjs\<close> and the member access, see below.
\<close>

text \<open>
  The loop is modelled in two parts: what one iteration does to \<^verbatim>\<open>totalThisMonth\<close> and
  \<^verbatim>\<open>categoryTotals\<close> when it completes (\<open>loop_body\<close>), and whether it raises
  (\<open>body_raises\<close>, below).
\<close>

definition expenseAmount :: "runtime \<Rightarrow> transaction \<Rightarrow> rat" where
  "expenseAmount rt t = \<bar>or_zero (to_number rt (amount t))\<bar>"

definition cat :: "transaction \<Rightarrow> jsval" where
  "cat t =
     js_or (js_and (category t)
              (if isArray (category t) then first_element (category t) else category t))
       (JStr ''Other'')"

fun loop_body :: "runtime \<Rightarrow> rat \<times> category_totals \<Rightarrow> transaction \<Rightarrow> rat \<times> category_totals" where
  "loop_body rt (totalThisMonth, categoryTotals) t =
     (if expenseAmount rt t > 0
      then (totalThisMonth + expenseAmount rt t,
            accumulate rt categoryTotals (to_string rt (cat t)) (expenseAmount rt t))
      else (totalThisMonth, categoryTotals))"

definition loop :: "runtime \<Rightarrow> transaction list \<Rightarrow> rat \<times> category_totals" where
  "loop rt transactions = foldl (loop_body rt) (0, []) transactions"

text \<open>
  \<^verbatim>\<open>
  const topCategories = Object.entries(categoryTotals)
    .sort((a, b) => b[1] - a[1])
    .slice(0, 5)
    .map(([name, total]) => ({ name, total }));
  \<close>
  The comparator's value is \<^verbatim>\<open>NaN\<close> when an operand is a string that is no number;
  \<^verbatim>\<open>sort\<close> reads \<^verbatim>\<open>NaN\<close> as 0. \<^verbatim>\<open>Array.prototype.sort\<close> is stable; it is modelled by
  insertion from the right, which for a comparator that is a consistent ordering gives
  the result of every stable sort. That is the case when all totals are numbers. When a
  total is a string the comparator is no ordering, the language leaves the order to the
  implementation, and the order of the model need not be that of a given engine; the
  properties below that concern the order are stated for numeric totals.
\<close>

fun total_number :: "runtime \<Rightarrow> total \<Rightarrow> jsnum" where
  "total_number rt (TNum n) = Num n"
| "total_number rt (TStr s) = StringToNumber rt s"

definition comparator :: "runtime \<Rightarrow> string \<times> total \<Rightarrow> string \<times> total \<Rightarrow> rat" where
  "comparator rt a b =
     (case (total_number rt (snd b), total_number rt (snd a)) of
        (Num y, Num x) \<Rightarrow> y - x
      | _ \<Rightarrow> 0)"

fun sort_insert :: "runtime \<Rightarrow> string \<times> total \<Rightarrow> (string \<times> total) list \<Rightarrow> (string \<times> total) list" where
  "sort_insert rt a [] = [a]"
| "sort_insert rt a (b # bs) =
     (if comparator rt a b \<le> 0 then a # b # bs else b # sort_insert rt a bs)"

definition js_sort :: "runtime \<Rightarrow> (string \<times> total) list \<Rightarrow> (string \<times> total) list" where
  "js_sort rt es = foldr (sort_insert rt) es []"

text \<open>An entry \<^verbatim>\<open>{ name, total }\<close> of \<^verbatim>\<open>topCategories\<close>; its field \<^verbatim>\<open>name\<close> is called
  \<open>entry_name\<close> here, \<open>name\<close> being a field of the transaction.\<close>

record category_total =
  entry_name :: string
  total :: total

record insights =
  totalThisMonth :: rat
  topCategories :: "category_total list"

text \<open>The value \<^verbatim>\<open>computeInsights(transactions)\<close> returns when no iteration raises.\<close>

definition computeInsights :: "runtime \<Rightarrow> transaction list \<Rightarrow> insights" where
  "computeInsights rt transactions =
     \<lparr> totalThisMonth = fst (loop rt transactions),
       topCategories =
         map (\<lambda>e. \<lparr> entry_name = fst e, total = snd e \<rparr>)
           (take 5 (js_sort rt (own_property_order (snd (loop rt transactions))))) \<rparr>"

subsection \<open>Exceptions inside computeInsights\<close>

text \<open>
  \<^verbatim>\<open>dayjs(v)\<close> builds a date, possibly an invalid one, from undefined, null, a boolean,
  a number or a string without raising; on arrays and objects the parameter decides.
\<close>

fun dayjs_raises :: "runtime \<Rightarrow> jsval \<Rightarrow> bool" where
  "dayjs_raises rt (JArr xs) = DayjsRaises rt (JArr xs)"
| "dayjs_raises rt (JObj kvs) = DayjsRaises rt (JObj kvs)"
| "dayjs_raises rt v = False"

text \<open>
  One iteration raises when one of its statements does, in this order:
  \<^verbatim>\<open>Number(t.amount)\<close>; \<^verbatim>\<open>dayjs(t.date)\<close>; the template literal of the \<^verbatim>\<open>console.log\<close> call,
  which converts \<^verbatim>\<open>t.name\<close>, \<^verbatim>\<open>t.date\<close> and \<^verbatim>\<open>t.category\<close> to strings; and, for a positive
  \<^verbatim>\<open>expenseAmount\<close>, the use of \<^verbatim>\<open>cat\<close> as a member name.
\<close>

definition body_raises :: "runtime \<Rightarrow> transaction \<Rightarrow> bool" where
  "body_raises rt t =
     (unconvertible (amount t) \<or> dayjs_raises rt (date t)
      \<or> unconvertible (name t) \<or> unconvertible (date t) \<or> unconvertible (category t)
      \<or> (0 < expenseAmount rt t \<and> unconvertible (cat t)))"

text \<open>The loop with its exceptions: the first iteration that raises ends the call.\<close>

fun run_loop :: "runtime \<Rightarrow> rat \<times> category_totals \<Rightarrow> transaction list
    \<Rightarrow> exn + rat \<times> category_totals" where
  "run_loop rt s [] = Inr s"
| "run_loop rt s (t # ts) =
     (if body_raises rt t then Inl TypeError else run_loop rt (loop_body rt s t) ts)"

text \<open>A call of \<^verbatim>\<open>computeInsights\<close>: it raises, or returns the insights.\<close>

definition computeInsights_call :: "runtime \<Rightarrow> transaction list \<Rightarrow> exn + insights" where
  "computeInsights_call rt transactions =
     (case run_loop rt (0, []) transactions of
        Inl e \<Rightarrow> Inl e
      | Inr s \<Rightarrow>
          Inr \<lparr> totalThisMonth = fst s,
                topCategories =
                  map (\<lambda>e. \<lparr> entry_name = fst e, total = snd e \<rparr>)
                    (take 5 (js_sort rt (own_property_order (snd s)))) \<rparr>)"

subsection \<open>The insights route\<close>

text \<open>
  \<^verbatim>\<open>
  const { transactions } = req.body || {};
  if (!Array.isArray(transactions)) return res.status(400).json({ error: 'transactions[] required' });
  const normalized = transactions.map(...);
  const insights = computeInsights(normalized);
  res.json({ insights });
  \<close>
  with \<^verbatim>\<open>catch (err) { res.status(500).json({ error: 'Failed to compute insights' }) }\<close>
  around it.
\<close>

datatype response = Json insights | Status nat string

definition insights_route :: "runtime \<Rightarrow> jsval \<Rightarrow> response" where
  "insights_route rt body =
     (let transactions = js_get (js_or body (JObj [])) ''transactions''
      in case transactions of
           JArr ts \<Rightarrow>
             (case normalized_all ts of
                Inl e \<Rightarrow> Status 500 ''Failed to compute insights''
              | Inr ns \<Rightarrow>
                  (case computeInsights_call rt ns of
                     Inl e \<Rightarrow> Status 500 ''Failed to compute insights''
                   | Inr insights \<Rightarrow> Json insights))
         | _ \<Rightarrow> Status 400 ''transactions[] required'')"

subsection \<open>Well-formed transactions\<close>

text \<open>
  A well-formed transaction: date, name and amount are a string, a number, a boolean,
  null or undefined, and the category is one of these or a list of them. The
  transactions of the data model (a date, a name, a numeric amount, a category label) are
  of this kind.
\<close>

fun scalar :: "jsval \<Rightarrow> bool" where
  "scalar (JArr xs) = False"
| "scalar (JObj kvs) = False"
| "scalar v = True"

definition well_formed :: "transaction \<Rightarrow> bool" where
  "well_formed t =
     (scalar (date t) \<and> scalar (name t) \<and> scalar (amount t)
      \<and> (scalar (category t)
           \<or> (case category t of JArr xs \<Rightarrow> list_all scalar xs | _ \<Rightarrow> False)))"

subsection \<open>The number a category total holds\<close>

text \<open>Used to state sums over the accumulated totals; a total that has become a string
  counts as 0.\<close>

fun number_of :: "total \<Rightarrow> rat" where
  "number_of (TNum n) = n"
| "number_of (TStr s) = 0"

section \<open>Properties\<close>

subsection \<open>The loop reads the amount and the category only\<close>

lemma expenseAmount_nonneg: "0 \<le> expenseAmount rt t"
  by (simp add: expenseAmount_def)

lemma loop_body_reads:
  "expenseAmount rt t' = expenseAmount rt t \<Longrightarrow> cat t' = cat t
   \<Longrightarrow> loop_body rt s t' = loop_body rt s t"
  by (cases s) simp

lemma foldl_loop_body_reads:
  "list_all2 (\<lambda>t t'. expenseAmount rt t' = expenseAmount rt t \<and> cat t' = cat t) ts ts'
   \<Longrightarrow> foldl (loop_body rt) s ts' = foldl (loop_body rt) s ts"
proof (induction ts ts' arbitrary: s rule: list_all2_induct)
  case Nil
  show ?case by simp
next
  case (Cons t ts t' ts')
  have "loop_body rt s t' = loop_body rt s t"
    using Cons.hyps(1) by (intro loop_body_reads) simp_all
  then show ?case using Cons.IH by simp
qed

lemma computeInsights_reads:
  "list_all2 (\<lambda>t t'. expenseAmount rt t' = expenseAmount rt t \<and> cat t' = cat t) ts ts'
   \<Longrightarrow> computeInsights rt ts' = computeInsights rt ts"
  by (simp add: computeInsights_def loop_def foldl_loop_body_reads)

lemma fst_foldl_loop_body:
  "fst (foldl (loop_body rt) (a, st) ts) = a + sum_list (map (expenseAmount rt) ts)"
proof (induction ts arbitrary: a st)
  case Nil
  show ?case by simp
next
  case (Cons t ts)
  have "0 \<le> expenseAmount rt t" by (rule expenseAmount_nonneg)
  then show ?case using Cons.IH by (auto simp: not_less)
qed

lemma foldl_loop_body_filter:
  "foldl (loop_body rt) s (filter (\<lambda>t. 0 < expenseAmount rt t) ts) = foldl (loop_body rt) s ts"
proof (induction ts arbitrary: s)
  case Nil
  show ?case by simp
next
  case (Cons t ts)
  then show ?case by (cases s) simp
qed

text \<open>
  Claim C8. Replacing the amount of any of the transactions of a batch by its negation
  leaves the whole result unchanged, and the empty batch yields total 0 and no category.
\<close>

theorem C8_sign_invariant:
  "(list_all2 (\<lambda>t t'. \<exists>q. amount t = JNum q \<and> (t' = t \<or> t' = t\<lparr>amount := JNum (- q)\<rparr>)) ts ts'
      \<longrightarrow> computeInsights rt ts' = computeInsights rt ts)
   \<and> computeInsights rt [] = \<lparr>totalThisMonth = 0, topCategories = []\<rparr>"
proof (intro conjI impI)
  assume "list_all2 (\<lambda>t t'. \<exists>q. amount t = JNum q \<and> (t' = t \<or> t' = t\<lparr>amount := JNum (- q)\<rparr>)) ts ts'"
  then have "list_all2 (\<lambda>t t'. expenseAmount rt t' = expenseAmount rt t \<and> cat t' = cat t) ts ts'"
    by (rule list_all2_mono) (auto simp: expenseAmount_def cat_def)
  then show "computeInsights rt ts' = computeInsights rt ts"
    by (rule computeInsights_reads)
next
  show "computeInsights rt [] = \<lparr>totalThisMonth = 0, topCategories = []\<rparr>"
    by (simp add: computeInsights_def loop_def own_property_order_def js_sort_def)
qed

text \<open>
  Claim C8 at the amounts -50 and 50.
\<close>

theorem C8_witness:
  "\<forall>rt. list_all2 (\<lambda>t t'. \<exists>q. amount t = JNum q \<and> (t' = t \<or> t' = t\<lparr>amount := JNum (- q)\<rparr>))
       [\<lparr>date = JStr ''2024-01-05'', name = JStr ''Cafe'', amount = JNum (- 50), category = JStr ''FOOD''\<rparr>]
       [\<lparr>date = JStr ''2024-01-05'', name = JStr ''Cafe'', amount = JNum 50, category = JStr ''FOOD''\<rparr>]
     \<and> computeInsights rt
       [\<lparr>date = JStr ''2024-01-05'', name = JStr ''Cafe'', amount = JNum 50, category = JStr ''FOOD''\<rparr>]
       = computeInsights rt
       [\<lparr>date = JStr ''2024-01-05'', name = JStr ''Cafe'', amount = JNum (- 50), category = JStr ''FOOD''\<rparr>]"
proof (intro allI conjI)
  fix rt
  let ?A = "[\<lparr>date = JStr ''2024-01-05'', name = JStr ''Cafe'', amount = JNum (- 50), category = JStr ''FOOD''\<rparr>]"
  let ?B = "[\<lparr>date = JStr ''2024-01-05'', name = JStr ''Cafe'', amount = JNum 50, category = JStr ''FOOD''\<rparr>]"
  show h: "list_all2 (\<lambda>t t'. \<exists>q. amount t = JNum q \<and> (t' = t \<or> t' = t\<lparr>amount := JNum (- q)\<rparr>)) ?A ?B"
    by simp
  show "computeInsights rt ?B = computeInsights rt ?A"
    by (rule C8_sign_invariant [THEN conjunct1, THEN mp]) (rule h)
qed

subsection \<open>Unfolding the definitions on concrete inputs\<close>

lemmas normalizer_defs = normalized_def refreshData_map_def js_or_def js_and_def js_get_opt_def
  nullish_def cat_def

lemmas csv_defs = upload_csv_record_def cell_def js_or_def replace_non_numeric_def is_digit_def
  parseFloat_def decimal_def digit_value_def

lemmas insights_defs = computeInsights_def loop_def expenseAmount_def cat_def js_or_def
  js_and_def accumulate_def own_property_order_def is_array_index_def is_digit_def decimal_def
  digit_value_def js_sort_def comparator_def object_prototype_methods_def

subsection \<open>The insights route and its normalizer\<close>

lemma normalized_all_objects:
  "list_all (\<lambda>t. \<not> nullish t) ts
   \<Longrightarrow> \<exists>ns. normalized_all ts = Inr ns \<and> length ns = length ts"
proof (induction ts)
  case Nil
  show ?case by simp
next
  case (Cons t ts)
  then obtain ns where "normalized_all ts = Inr ns" "length ns = length ts" by auto
  moreover from Cons.prems have "\<exists>n. normalized t = Inr n" by (simp add: normalized_def)
  ultimately show ?case by auto
qed

subsection \<open>Calls of computeInsights that complete\<close>

text \<open>
  The loop completes exactly when no iteration raises, and then
  \<^const>\<open>computeInsights_call\<close> returns the value \<^const>\<open>computeInsights\<close>.
\<close>

lemma run_loop_foldl:
  "run_loop rt s ts
   = (if list_ex (body_raises rt) ts then Inl TypeError else Inr (foldl (loop_body rt) s ts))"
  by (induction ts arbitrary: s) simp_all

lemma computeInsights_call_returns:
  "computeInsights_call rt ts
   = (if list_ex (body_raises rt) ts then Inl TypeError else Inr (computeInsights rt ts))"
  by (simp add: computeInsights_call_def run_loop_foldl computeInsights_def loop_def)

lemma scalar_converts: "scalar v \<Longrightarrow> \<not> unconvertible v \<and> \<not> dayjs_raises rt v"
  by (cases v) simp_all

lemma scalar_list_converts: "list_all scalar xs \<Longrightarrow> \<not> list_ex unconvertible xs"
  by (induction xs) (simp_all add: scalar_converts)

lemma well_formed_cat: "well_formed t \<Longrightarrow> scalar (cat t)"
proof -
  assume w: "well_formed t"
  show ?thesis
  proof (cases "category t")
    case (JArr xs)
    with w have "list_all scalar xs" by (simp add: well_formed_def)
    then show ?thesis using JArr by (cases xs) (simp_all add: cat_def js_or_def js_and_def)
  next
    case (JObj kvs)
    with w show ?thesis by (simp add: well_formed_def)
  qed (simp_all add: cat_def js_or_def js_and_def)
qed

lemma well_formed_completes: "well_formed t \<Longrightarrow> \<not> body_raises rt t"
proof -
  assume w: "well_formed t"
  then have "scalar (date t)" "scalar (name t)" "scalar (amount t)"
    by (simp_all add: well_formed_def)
  then have a: "\<not> unconvertible (amount t)" "\<not> dayjs_raises rt (date t)"
    "\<not> unconvertible (name t)" "\<not> unconvertible (date t)"
    by (simp_all add: scalar_converts)
  have c: "\<not> unconvertible (category t)"
  proof (cases "category t")
    case (JArr xs)
    with w have "list_all scalar xs" by (simp add: well_formed_def)
    then show ?thesis using JArr by (simp add: scalar_list_converts)
  next
    case (JObj kvs)
    with w show ?thesis by (simp add: well_formed_def)
  qed simp_all
  from well_formed_cat [OF w] have "\<not> unconvertible (cat t)" by (simp add: scalar_converts)
  with a c show ?thesis by (simp add: body_raises_def)
qed

lemma well_formed_batch_completes:
  "list_all well_formed ts \<Longrightarrow> \<not> list_ex (body_raises rt) ts"
  by (induction ts) (simp_all add: well_formed_completes)

lemma insights_route_array:
  "js_get (js_or body (JObj [])) ''transactions'' = JArr ts \<Longrightarrow> normalized_all ts = Inr ns
   \<Longrightarrow> insights_route rt body
       = (if list_ex (body_raises rt) ns then Status 500 ''Failed to compute insights''
          else Json (computeInsights rt ns))"
  by (simp add: insights_route_def computeInsights_call_returns)

lemma single_transaction:
  assumes "0 < expenseAmount rt t" "to_string rt (cat t) \<notin> set inherited_names"
  shows "computeInsights rt [t]
         = \<lparr>totalThisMonth = expenseAmount rt t,
            topCategories = [\<lparr>entry_name = to_string rt (cat t),
                              total = TNum (expenseAmount rt t)\<rparr>]\<rparr>"
proof -
  from assms(2) have a: "to_string rt (cat t) \<noteq> ''__proto__''"
    and b: "to_string rt (cat t) \<notin> set object_prototype_methods"
    by (simp_all add: inherited_names_def)
  have acc: "accumulate rt [] (to_string rt (cat t)) (expenseAmount rt t)
             = [(to_string rt (cat t), TNum (expenseAmount rt t))]"
    unfolding accumulate_def using a b by simp
  have l: "loop rt [t] = (expenseAmount rt t, [(to_string rt (cat t), TNum (expenseAmount rt t))])"
    using assms(1) acc by (simp add: loop_def)
  have o: "own_property_order [(k, v)] = [(k, v)]" for k :: string and v :: total
    by (simp add: own_property_order_def)
  show ?thesis by (simp add: computeInsights_def l o js_sort_def)
qed

lemma zero_transaction:
  "expenseAmount rt t = 0 \<Longrightarrow> computeInsights rt [t] = \<lparr>totalThisMonth = 0, topCategories = []\<rparr>"
  by (simp add: computeInsights_def loop_def own_property_order_def js_sort_def)

text \<open>
  Claim C7. The route is the only caller of \<^verbatim>\<open>computeInsights\<close>. When the posted
  \<^verbatim>\<open>transactions\<close> is not an array (or is missing) the route answers 400,
  \<^verbatim>\<open>transactions[] required\<close>, and computes no insights. A call of \<^verbatim>\<open>computeInsights\<close> on a
  batch of well-formed transactions raises nothing and returns the insights. For an
  array of records none of which is null or undefined, the route normalizes every record
  and answers 500, \<^verbatim>\<open>Failed to compute insights\<close>, when an iteration of \<^verbatim>\<open>computeInsights\<close>
  raises, and with the insights otherwise; so it answers with the insights whenever the
  normalized batch is well-formed. The route is a function of the request alone: the same
  request gives the same answer and nothing is stored.
\<close>

theorem C7_route_rejects_non_arrays:
  "(\<not> isArray (js_get (js_or body (JObj [])) ''transactions'')
      \<longrightarrow> insights_route rt body = Status 400 ''transactions[] required'')
   \<and> (list_all well_formed ns \<longrightarrow> computeInsights_call rt ns = Inr (computeInsights rt ns))
   \<and> (js_get (js_or body (JObj [])) ''transactions'' = JArr ts \<and> list_all (\<lambda>t. \<not> nullish t) ts
      \<longrightarrow> (\<exists>ns. normalized_all ts = Inr ns \<and> length ns = length ts
             \<and> insights_route rt body
                 = (if list_ex (body_raises rt) ns then Status 500 ''Failed to compute insights''
                    else Json (computeInsights rt ns))))
   \<and> (js_get (js_or body (JObj [])) ''transactions'' = JArr ts \<and> normalized_all ts = Inr ns
        \<and> list_all well_formed ns
      \<longrightarrow> insights_route rt body = Json (computeInsights rt ns))"
proof (intro conjI impI)
  assume "\<not> isArray (js_get (js_or body (JObj [])) ''transactions'')"
  then show "insights_route rt body = Status 400 ''transactions[] required''"
    by (cases "js_get (js_or body (JObj [])) ''transactions''") (simp_all add: insights_route_def)
next
  assume "list_all well_formed ns"
  then have "\<not> list_ex (body_raises rt) ns" by (rule well_formed_batch_completes)
  then show "computeInsights_call rt ns = Inr (computeInsights rt ns)"
    by (simp add: computeInsights_call_returns)
next
  assume a: "js_get (js_or body (JObj [])) ''transactions'' = JArr ts \<and> list_all (\<lambda>t. \<not> nullish t) ts"
  then have g: "js_get (js_or body (JObj [])) ''transactions'' = JArr ts"
    and n: "list_all (\<lambda>t. \<not> nullish t) ts" by simp_all
  from normalized_all_objects [OF n]
  obtain ms where ms: "normalized_all ts = Inr ms" "length ms = length ts" by blast
  from insights_route_array [OF g ms(1)] ms
  show "\<exists>ns. normalized_all ts = Inr ns \<and> length ns = length ts
             \<and> insights_route rt body
                 = (if list_ex (body_raises rt) ns then Status 500 ''Failed to compute insights''
                    else Json (computeInsights rt ns))" by blast
next
  assume a: "js_get (js_or body (JObj [])) ''transactions'' = JArr ts \<and> normalized_all ts = Inr ns
        \<and> list_all well_formed ns"
  then have g: "js_get (js_or body (JObj [])) ''transactions'' = JArr ts"
    and n: "normalized_all ts = Inr ns" and w: "list_all well_formed ns" by simp_all
  from w have "\<not> list_ex (body_raises rt) ns" by (rule well_formed_batch_completes)
  with insights_route_array [OF g n]
  show "insights_route rt body = Json (computeInsights rt ns)" by simp
qed

text \<open>
  The route on a string in place of the array and on a missing body; a well-formed batch
  of two transactions; and a posted one-record batch, whose normalized batch is
  well-formed.
\<close>

theorem C7_witness:
  "\<forall>rt. \<not> isArray (js_get (js_or (JObj [(''transactions'', JStr ''abc'')]) (JObj [])) ''transactions'')
     \<and> insights_route rt (JObj [(''transactions'', JStr ''abc'')]) = Status 400 ''transactions[] required''
     \<and> insights_route rt JUndefined = Status 400 ''transactions[] required''
     \<and> list_all well_formed
         [\<lparr>date = JStr ''2024-01-05'', name = JStr ''Cafe'', amount = JNum (- 45), category = JStr ''FOOD''\<rparr>,
          \<lparr>date = JNull, name = JStr ''Air'', amount = JStr ''12.5'', category = JArr [JStr ''TRAVEL'', JStr ''AIR'']\<rparr>]
     \<and> computeInsights_call rt
         [\<lparr>date = JStr ''2024-01-05'', name = JStr ''Cafe'', amount = JNum (- 45), category = JStr ''FOOD''\<rparr>,
          \<lparr>date = JNull, name = JStr ''Air'', amount = JStr ''12.5'', category = JArr [JStr ''TRAVEL'', JStr ''AIR'']\<rparr>]
       = Inr (computeInsights rt
         [\<lparr>date = JStr ''2024-01-05'', name = JStr ''Cafe'', amount = JNum (- 45), category = JStr ''FOOD''\<rparr>,
          \<lparr>date = JNull, name = JStr ''Air'', amount = JStr ''12.5'', category = JArr [JStr ''TRAVEL'', JStr ''AIR'']\<rparr>])
     \<and> js_get (js_or (JObj [(''transactions'', JArr [JObj [(''amount'', JNum 5)]])]) (JObj [])) ''transactions''
         = JArr [JObj [(''amount'', JNum 5)]]
     \<and> list_all (\<lambda>t. \<not> nullish t) [JObj [(''amount'', JNum 5)]]
     \<and> (\<exists>ns. normalized_all [JObj [(''amount'', JNum 5)]] = Inr ns \<and> length ns = length [JObj [(''amount'', JNum 5)]]
           \<and> insights_route rt (JObj [(''transactions'', JArr [JObj [(''amount'', JNum 5)]])])
              = (if list_ex (body_raises rt) ns then Status 500 ''Failed to compute insights''
                 else Json (computeInsights rt ns)))
     \<and> normalized_all [JObj [(''amount'', JNum 5)]]
         = Inr [\<lparr>date = JUndefined, name = JStr '''', amount = JNum 5, category = JStr ''Other''\<rparr>]
     \<and> list_all well_formed [\<lparr>date = JUndefined, name = JStr '''', amount = JNum 5, category = JStr ''Other''\<rparr>]
     \<and> insights_route rt (JObj [(''transactions'', JArr [JObj [(''amount'', JNum 5)]])])
         = Json \<lparr>totalThisMonth = 5, topCategories = [\<lparr>entry_name = ''Other'', total = TNum 5\<rparr>]\<rparr>"
proof (intro allI conjI)
  fix rt
  let ?A = "[\<lparr>date = JStr ''2024-01-05'', name = JStr ''Cafe'', amount = JNum (- 45), category = JStr ''FOOD''\<rparr>,
          \<lparr>date = JNull, name = JStr ''Air'', amount = JStr ''12.5'', category = JArr [JStr ''TRAVEL'', JStr ''AIR'']\<rparr>]"
  show h1: "\<not> isArray (js_get (js_or (JObj [(''transactions'', JStr ''abc'')]) (JObj [])) ''transactions'')"
    by (simp add: js_or_def)
  show "insights_route rt (JObj [(''transactions'', JStr ''abc'')]) = Status 400 ''transactions[] required''"
    by (rule C7_route_rejects_non_arrays [THEN conjunct1, THEN mp]) (rule h1)
  show "insights_route rt JUndefined = Status 400 ''transactions[] required''"
    by (rule C7_route_rejects_non_arrays [THEN conjunct1, THEN mp]) (simp add: js_or_def)
  show w: "list_all well_formed ?A"
    by (simp add: well_formed_def)
  show "computeInsights_call rt ?A = Inr (computeInsights rt ?A)"
    by (rule C7_route_rejects_non_arrays [THEN conjunct2, THEN conjunct1, THEN mp]) (rule w)
  show h2: "js_get (js_or (JObj [(''transactions'', JArr [JObj [(''amount'', JNum 5)]])]) (JObj [])) ''transactions''
         = JArr [JObj [(''amount'', JNum 5)]]"
    by (simp add: js_or_def)
  show h3: "list_all (\<lambda>t. \<not> nullish t) [JObj [(''amount'', JNum 5)]]"
    by (simp add: nullish_def)
  show "\<exists>ns. normalized_all [JObj [(''amount'', JNum 5)]] = Inr ns \<and> length ns = length [JObj [(''amount'', JNum 5)]]
           \<and> insights_route rt (JObj [(''transactions'', JArr [JObj [(''amount'', JNum 5)]])])
              = (if list_ex (body_raises rt) ns then Status 500 ''Failed to compute insights''
                 else Json (computeInsights rt ns))"
    by (rule C7_route_rejects_non_arrays [THEN conjunct2, THEN conjunct2, THEN conjunct1, THEN mp])
       (intro conjI h2 h3)
  show h4: "normalized_all [JObj [(''amount'', JNum 5)]]
         = Inr [\<lparr>date = JUndefined, name = JStr '''', amount = JNum 5, category = JStr ''Other''\<rparr>]"
    by (simp add: normalized_def nullish_def js_or_def js_get_opt_def)
  show h5: "list_all well_formed [\<lparr>date = JUndefined, name = JStr '''', amount = JNum 5, category = JStr ''Other''\<rparr>]"
    by (simp add: well_formed_def)
  have "insights_route rt (JObj [(''transactions'', JArr [JObj [(''amount'', JNum 5)]])])
         = Json (computeInsights rt [\<lparr>date = JUndefined, name = JStr '''', amount = JNum 5, category = JStr ''Other''\<rparr>])"
    by (rule C7_route_rejects_non_arrays [where ts = "[JObj [(''amount'', JNum 5)]]",
          THEN conjunct2, THEN conjunct2, THEN conjunct2, THEN mp])
       (intro conjI h2 h4 h5)
  also have "computeInsights rt [\<lparr>date = JUndefined, name = JStr '''', amount = JNum 5, category = JStr ''Other''\<rparr>]
         = \<lparr>totalThisMonth = 5, topCategories = [\<lparr>entry_name = ''Other'', total = TNum 5\<rparr>]\<rparr>"
    by (simp add: insights_defs)
  finally show "insights_route rt (JObj [(''transactions'', JArr [JObj [(''amount'', JNum 5)]])])
         = Json \<lparr>totalThisMonth = 5, topCategories = [\<lparr>entry_name = ''Other'', total = TNum 5\<rparr>]\<rparr>" .
qed

text \<open>
  A transaction whose name is an object with a member \<^verbatim>\<open>toString\<close> of its own is not
  well-formed: the template literal raises a TypeError, and the route answers 500.
\<close>

lemma computeInsights_raises_on_unconvertible_name:
  "computeInsights_call rt [\<lparr>date = JStr ''2024-01-05'', name = JObj [(''toString'', JNum 1)],
       amount = JNum 5, category = JStr ''A''\<rparr>] = Inl TypeError
   \<and> insights_route rt (JObj [(''transactions'', JArr [JObj [(''name'', JObj [(''toString'', JNum 1)]),
       (''amount'', JNum 5), (''category'', JStr ''A'')]])])
     = Status 500 ''Failed to compute insights''"
  by (simp add: computeInsights_call_def body_raises_def insights_route_def js_or_def normalized_def nullish_def)

text \<open>
  Claim C2. A record of the banking aggregator that carries both the legacy category
  list and the structured \<^verbatim>\<open>personal_finance_category\<close>: the normalizer of the insights
  route keeps the legacy list, and \<^verbatim>\<open>computeInsights\<close> then files the transaction under
  the list's first element; the frontend's normalizer, on the same record, takes the
  structured field's primary label.
\<close>

theorem C2_insights_route_prefers_legacy_category:
  "normalized (JObj [(''date'', JStr ''2024-01-05''), (''name'', JStr ''Cafe''), (''amount'', JNum 4.5),
       (''category'', JArr [JStr ''Food and Drink'', JStr ''Restaurants'']),
       (''personal_finance_category'', JObj [(''primary'', JStr ''FOOD_AND_DRINK'')])])
     = Inr \<lparr>date = JStr ''2024-01-05'', name = JStr ''Cafe'', amount = JNum 4.5,
            category = JArr [JStr ''Food and Drink'', JStr ''Restaurants'']\<rparr>
   \<and> cat \<lparr>date = JStr ''2024-01-05'', name = JStr ''Cafe'', amount = JNum 4.5,
            category = JArr [JStr ''Food and Drink'', JStr ''Restaurants'']\<rparr> = JStr ''Food and Drink''
   \<and> refreshData_map (JObj [(''date'', JStr ''2024-01-05''), (''name'', JStr ''Cafe''), (''amount'', JNum 4.5),
       (''category'', JArr [JStr ''Food and Drink'', JStr ''Restaurants'']),
       (''personal_finance_category'', JObj [(''primary'', JStr ''FOOD_AND_DRINK'')])])
     = Inr \<lparr>date = JStr ''2024-01-05'', name = JStr ''Cafe'', amount = JNum 4.5,
            category = JStr ''FOOD_AND_DRINK''\<rparr>"
  by (simp add: normalizer_defs)

text \<open>
  A batch of one posted record: the route answers with the insights of the one
  normalized transaction when its iteration does not raise.
\<close>

lemma insights_route_single:
  assumes "normalized (JObj kvs) = Inr t" "\<not> body_raises rt t"
  shows "insights_route rt (JObj [(''transactions'', JArr [JObj kvs])])
         = Json (computeInsights rt [t])"
proof -
  have g: "js_get (js_or (JObj [(''transactions'', JArr [JObj kvs])]) (JObj [])) ''transactions''
           = JArr [JObj kvs]"
    by (simp add: js_or_def)
  from assms(1) have n: "normalized_all [JObj kvs] = Inr [t]" by simp
  from insights_route_array [OF g n] assms(2) show ?thesis by simp
qed

lemma cat_string_list:
  "category t = JArr (map JStr xs)
   \<Longrightarrow> cat t = JStr (case xs of [] \<Rightarrow> ''Other'' | x # ys \<Rightarrow> if x = [] then ''Other'' else x)"
  by (cases xs) (simp_all add: cat_def js_or_def js_and_def)

text \<open>
  Claim C5 as stated fails on a record of amount 5 whose category list begins with the
  empty string: the route's normalizer keeps the list as the category, and
  \<^verbatim>\<open>computeInsights\<close> files the transaction under \<^verbatim>\<open>Other\<close>, not under the list's first
  element.
\<close>

theorem C5_counterexample:
  "\<forall>rt. insights_route rt (JObj [(''transactions'', JArr [JObj [(''amount'', JNum 5),
         (''category'', JArr [JStr [], JStr ''RESTAURANTS''])]])])
       = Json \<lparr>totalThisMonth = 5, topCategories = [\<lparr>entry_name = ''Other'', total = TNum 5\<rparr>]\<rparr>
     \<and> map_sum id category (normalized (JObj [(''amount'', JNum 5),
         (''category'', JArr [JStr [], JStr ''RESTAURANTS''])]))
       = Inr (JArr [JStr [], JStr ''RESTAURANTS''])
     \<and> first_element (JArr [JStr [], JStr ''RESTAURANTS'']) = JStr []"
proof (intro allI conjI)
  fix rt
  let ?t = "\<lparr>date = JUndefined, name = JStr '''', amount = JNum 5,
             category = JArr [JStr [], JStr ''RESTAURANTS'']\<rparr>"
  have n: "normalized (JObj [(''amount'', JNum 5), (''category'', JArr [JStr [], JStr ''RESTAURANTS''])])
           = Inr ?t"
    by (simp add: normalized_def nullish_def js_or_def)
  have r: "\<not> body_raises rt ?t"
    by (simp add: body_raises_def cat_def js_or_def js_and_def)
  have "computeInsights rt [?t]
        = \<lparr>totalThisMonth = 5, topCategories = [\<lparr>entry_name = ''Other'', total = TNum 5\<rparr>]\<rparr>"
    by (simp add: insights_defs)
  with insights_route_single [OF n r]
  show "insights_route rt (JObj [(''transactions'', JArr [JObj [(''amount'', JNum 5),
         (''category'', JArr [JStr [], JStr ''RESTAURANTS''])]])])
       = Json \<lparr>totalThisMonth = 5, topCategories = [\<lparr>entry_name = ''Other'', total = TNum 5\<rparr>]\<rparr>"
    by simp
  show "map_sum id category (normalized (JObj [(''amount'', JNum 5),
         (''category'', JArr [JStr [], JStr ''RESTAURANTS''])]))
       = Inr (JArr [JStr [], JStr ''RESTAURANTS''])"
    by (simp add: n)
  show "first_element (JArr [JStr [], JStr ''RESTAURANTS'']) = JStr []"
    by simp
qed

text \<open>
  Claim C5, amended. Take a record posted to the insights route on which the iteration
  of \<^verbatim>\<open>computeInsights\<close> does not raise. If its category is a list of strings, the
  normalizer keeps the list as it is, and when the amount has a magnitude greater than 0
  the transaction is filed under the list's first element if that is a non-empty string,
  and under \<^verbatim>\<open>Other\<close> if the list is empty or begins with the empty string, provided this
  label is not a name that \<^verbatim>\<open>categoryTotals\<close> inherits from \<^verbatim>\<open>Object.prototype\<close>. If the
  record has no truthy category and no truthy \<^verbatim>\<open>personal_finance_category.primary\<close>, its
  category is \<^verbatim>\<open>Other\<close>, and with a magnitude greater than 0 it is filed under \<^verbatim>\<open>Other\<close>.
  A record whose amount has magnitude 0 is filed under no category. The record of amount
  5 with the category list FOOD_AND_DRINK, RESTAURANTS is filed under FOOD_AND_DRINK.
\<close>

theorem C5_first_element_or_Other:
  "(map_of kvs ''category'' = Some (JArr (map JStr xs)) \<and> normalized (JObj kvs) = Inr t
      \<and> \<not> body_raises rt t \<and> 0 < expenseAmount rt t
      \<and> (case xs of [] \<Rightarrow> ''Other'' | x # ys \<Rightarrow> if x = [] then ''Other'' else x)
           \<notin> set inherited_names
     \<longrightarrow> category t = JArr (map JStr xs)
       \<and> insights_route rt (JObj [(''transactions'', JArr [JObj kvs])])
         = Json \<lparr>totalThisMonth = expenseAmount rt t,
                 topCategories =
                   [\<lparr>entry_name = (case xs of [] \<Rightarrow> ''Other''
                                    | x # ys \<Rightarrow> if x = [] then ''Other'' else x),
                     total = TNum (expenseAmount rt t)\<rparr>]\<rparr>)
   \<and> (\<not> truthy (js_get (JObj kvs) ''category'')
       \<and> \<not> truthy (js_get_opt (js_get (JObj kvs) ''personal_finance_category'') ''primary'')
       \<and> normalized (JObj kvs) = Inr t \<and> \<not> body_raises rt t \<and> 0 < expenseAmount rt t
     \<longrightarrow> category t = JStr ''Other''
       \<and> insights_route rt (JObj [(''transactions'', JArr [JObj kvs])])
         = Json \<lparr>totalThisMonth = expenseAmount rt t,
                 topCategories = [\<lparr>entry_name = ''Other'', total = TNum (expenseAmount rt t)\<rparr>]\<rparr>)
   \<and> (normalized (JObj kvs) = Inr t \<and> \<not> body_raises rt t \<and> expenseAmount rt t = 0
     \<longrightarrow> insights_route rt (JObj [(''transactions'', JArr [JObj kvs])])
         = Json \<lparr>totalThisMonth = 0, topCategories = []\<rparr>)
   \<and> insights_route rt (JObj [(''transactions'', JArr [JObj [(''amount'', JNum 5),
         (''category'', JArr [JStr ''FOOD_AND_DRINK'', JStr ''RESTAURANTS''])]])])
       = Json \<lparr>totalThisMonth = 5,
               topCategories = [\<lparr>entry_name = ''FOOD_AND_DRINK'', total = TNum 5\<rparr>]\<rparr>"
proof (intro conjI impI)
  let ?label = "case xs of [] \<Rightarrow> ''Other'' | x # ys \<Rightarrow> if x = [] then ''Other'' else x"
  assume a: "map_of kvs ''category'' = Some (JArr (map JStr xs)) \<and> normalized (JObj kvs) = Inr t
      \<and> \<not> body_raises rt t \<and> 0 < expenseAmount rt t \<and> ?label \<notin> set inherited_names"
  then have m: "map_of kvs ''category'' = Some (JArr (map JStr xs))"
    and n: "normalized (JObj kvs) = Inr t" and r: "\<not> body_raises rt t"
    and e: "0 < expenseAmount rt t" and p: "?label \<notin> set inherited_names" by simp_all
  from m n show c: "category t = JArr (map JStr xs)"
    by (auto simp: normalized_def nullish_def js_or_def)
  from cat_string_list [OF c] have l: "to_string rt (cat t) = ?label" by simp
  from p have "to_string rt (cat t) \<notin> set inherited_names" unfolding l .
  from single_transaction [OF e this] insights_route_single [OF n r]
  show "insights_route rt (JObj [(''transactions'', JArr [JObj kvs])])
         = Json \<lparr>totalThisMonth = expenseAmount rt t,
                 topCategories = [\<lparr>entry_name = ?label, total = TNum (expenseAmount rt t)\<rparr>]\<rparr>"
    unfolding l by simp
next
  assume a: "\<not> truthy (js_get (JObj kvs) ''category'')
       \<and> \<not> truthy (js_get_opt (js_get (JObj kvs) ''personal_finance_category'') ''primary'')
       \<and> normalized (JObj kvs) = Inr t \<and> \<not> body_raises rt t \<and> 0 < expenseAmount rt t"
  then have c1: "\<not> truthy (js_get (JObj kvs) ''category'')"
    and c2: "\<not> truthy (js_get_opt (js_get (JObj kvs) ''personal_finance_category'') ''primary'')"
    and n: "normalized (JObj kvs) = Inr t" and r: "\<not> body_raises rt t"
    and e: "0 < expenseAmount rt t" by simp_all
  from c1 c2 n show c: "category t = JStr ''Other''"
    by (auto simp: normalized_def nullish_def js_or_def simp del: js_get.simps)
  then have l: "to_string rt (cat t) = ''Other''" by (simp add: cat_def js_or_def js_and_def)
  have "to_string rt (cat t) \<notin> set inherited_names"
    unfolding l by (simp add: inherited_names_def object_prototype_methods_def)
  from single_transaction [OF e this] insights_route_single [OF n r]
  show "insights_route rt (JObj [(''transactions'', JArr [JObj kvs])])
         = Json \<lparr>totalThisMonth = expenseAmount rt t,
                 topCategories = [\<lparr>entry_name = ''Other'', total = TNum (expenseAmount rt t)\<rparr>]\<rparr>"
    unfolding l by simp
next
  assume a: "normalized (JObj kvs) = Inr t \<and> \<not> body_raises rt t \<and> expenseAmount rt t = 0"
  then have n: "normalized (JObj kvs) = Inr t" and r: "\<not> body_raises rt t"
    and e: "expenseAmount rt t = 0" by simp_all
  from zero_transaction [OF e] insights_route_single [OF n r]
  show "insights_route rt (JObj [(''transactions'', JArr [JObj kvs])])
         = Json \<lparr>totalThisMonth = 0, topCategories = []\<rparr>" by simp
next
  let ?t = "\<lparr>date = JUndefined, name = JStr '''', amount = JNum 5,
             category = JArr [JStr ''FOOD_AND_DRINK'', JStr ''RESTAURANTS'']\<rparr>"
  have n: "normalized (JObj [(''amount'', JNum 5),
             (''category'', JArr [JStr ''FOOD_AND_DRINK'', JStr ''RESTAURANTS''])]) = Inr ?t"
    by (simp add: normalized_def nullish_def js_or_def)
  have r: "\<not> body_raises rt ?t"
    by (simp add: body_raises_def cat_def js_or_def js_and_def)
  have "computeInsights rt [?t]
        = \<lparr>totalThisMonth = 5, topCategories = [\<lparr>entry_name = ''FOOD_AND_DRINK'', total = TNum 5\<rparr>]\<rparr>"
    by (simp add: insights_defs)
  with insights_route_single [OF n r]
  show "insights_route rt (JObj [(''transactions'', JArr [JObj [(''amount'', JNum 5),
         (''category'', JArr [JStr ''FOOD_AND_DRINK'', JStr ''RESTAURANTS''])]])])
       = Json \<lparr>totalThisMonth = 5,
               topCategories = [\<lparr>entry_name = ''FOOD_AND_DRINK'', total = TNum 5\<rparr>]\<rparr>"
    by simp
qed

text \<open>
  The amended claim C5 at a record of amount -12 with the category list TRAVEL, AIR, at
  a record of amount 3 whose category is the empty string, and at a record without
  amount.
\<close>

theorem C5_witness:
  "\<forall>rt. map_of [(''date'', JStr ''2024-01-05''), (''amount'', JNum (- 12)),
            (''category'', JArr (map JStr [''TRAVEL'', ''AIR'']))] ''category''
       = Some (JArr (map JStr [''TRAVEL'', ''AIR'']))
     \<and> normalized (JObj [(''date'', JStr ''2024-01-05''), (''amount'', JNum (- 12)),
            (''category'', JArr (map JStr [''TRAVEL'', ''AIR'']))])
       = Inr \<lparr>date = JStr ''2024-01-05'', name = JStr '''', amount = JNum (- 12),
              category = JArr (map JStr [''TRAVEL'', ''AIR''])\<rparr>
     \<and> \<not> body_raises rt \<lparr>date = JStr ''2024-01-05'', name = JStr '''', amount = JNum (- 12),
              category = JArr (map JStr [''TRAVEL'', ''AIR''])\<rparr>
     \<and> 0 < expenseAmount rt \<lparr>date = JStr ''2024-01-05'', name = JStr '''', amount = JNum (- 12),
              category = JArr (map JStr [''TRAVEL'', ''AIR''])\<rparr>
     \<and> ''TRAVEL'' \<notin> set inherited_names
     \<and> insights_route rt (JObj [(''transactions'', JArr [JObj [(''date'', JStr ''2024-01-05''),
            (''amount'', JNum (- 12)), (''category'', JArr (map JStr [''TRAVEL'', ''AIR'']))]])])
       = Json \<lparr>totalThisMonth = 12, topCategories = [\<lparr>entry_name = ''TRAVEL'', total = TNum 12\<rparr>]\<rparr>
     \<and> \<not> truthy (js_get (JObj [(''amount'', JNum 3), (''category'', JStr [])]) ''category'')
     \<and> \<not> truthy (js_get_opt (js_get (JObj [(''amount'', JNum 3), (''category'', JStr [])])
            ''personal_finance_category'') ''primary'')
     \<and> normalized (JObj [(''amount'', JNum 3), (''category'', JStr [])])
       = Inr \<lparr>date = JUndefined, name = JStr '''', amount = JNum 3, category = JStr ''Other''\<rparr>
     \<and> \<not> body_raises rt \<lparr>date = JUndefined, name = JStr '''', amount = JNum 3, category = JStr ''Other''\<rparr>
     \<and> 0 < expenseAmount rt \<lparr>date = JUndefined, name = JStr '''', amount = JNum 3, category = JStr ''Other''\<rparr>
     \<and> insights_route rt (JObj [(''transactions'', JArr [JObj [(''amount'', JNum 3), (''category'', JStr [])]])])
       = Json \<lparr>totalThisMonth = 3, topCategories = [\<lparr>entry_name = ''Other'', total = TNum 3\<rparr>]\<rparr>
     \<and> normalized (JObj [(''category'', JArr [JStr ''TRAVEL''])])
       = Inr \<lparr>date = JUndefined, name = JStr '''', amount = JUndefined, category = JArr [JStr ''TRAVEL'']\<rparr>
     \<and> \<not> body_raises rt \<lparr>date = JUndefined, name = JStr '''', amount = JUndefined, category = JArr [JStr ''TRAVEL'']\<rparr>
     \<and> expenseAmount rt \<lparr>date = JUndefined, name = JStr '''', amount = JUndefined, category = JArr [JStr ''TRAVEL'']\<rparr> = 0
     \<and> insights_route rt (JObj [(''transactions'', JArr [JObj [(''category'', JArr [JStr ''TRAVEL''])]])])
       = Json \<lparr>totalThisMonth = 0, topCategories = []\<rparr>"
proof (intro allI conjI)
  fix rt
  let ?k1 = "[(''date'', JStr ''2024-01-05''), (''amount'', JNum (- 12)),
            (''category'', JArr (map JStr [''TRAVEL'', ''AIR'']))]"
  let ?t1 = "\<lparr>date = JStr ''2024-01-05'', name = JStr '''', amount = JNum (- 12),
              category = JArr (map JStr [''TRAVEL'', ''AIR''])\<rparr>"
  let ?k2 = "[(''amount'', JNum 3), (''category'', JStr [])]"
  let ?t2 = "\<lparr>date = JUndefined, name = JStr '''', amount = JNum 3, category = JStr ''Other''\<rparr>"
  let ?k3 = "[(''category'', JArr [JStr ''TRAVEL''])]"
  let ?t3 = "\<lparr>date = JUndefined, name = JStr '''', amount = JUndefined, category = JArr [JStr ''TRAVEL'']\<rparr>"
  show a1: "map_of ?k1 ''category'' = Some (JArr (map JStr [''TRAVEL'', ''AIR'']))" by simp
  show a2: "normalized (JObj ?k1) = Inr ?t1"
    by (simp add: normalized_def nullish_def js_or_def)
  show a3: "\<not> body_raises rt ?t1"
    by (simp add: body_raises_def cat_def js_or_def js_and_def)
  show a4: "0 < expenseAmount rt ?t1" by (simp add: expenseAmount_def)
  show a5: "''TRAVEL'' \<notin> set inherited_names"
    by (simp add: inherited_names_def object_prototype_methods_def)
  have a5': "(case [''TRAVEL'', ''AIR''] of [] \<Rightarrow> ''Other'' | x # ys \<Rightarrow> if x = [] then ''Other'' else x)
             \<notin> set inherited_names"
    using a5 by simp
  have e1: "expenseAmount rt ?t1 = 12" by (simp add: expenseAmount_def)
  from C5_first_element_or_Other [where kvs = ?k1 and xs = "[''TRAVEL'', ''AIR'']" and t = ?t1 and rt = rt,
      THEN conjunct1, THEN mp, OF conjI [OF a1 conjI [OF a2 conjI [OF a3 conjI [OF a4 a5']]]], THEN conjunct2]
  show "insights_route rt (JObj [(''transactions'', JArr [JObj ?k1])])
       = Json \<lparr>totalThisMonth = 12, topCategories = [\<lparr>entry_name = ''TRAVEL'', total = TNum 12\<rparr>]\<rparr>"
    unfolding e1 by simp
  show b1: "\<not> truthy (js_get (JObj ?k2) ''category'')" by simp
  show b2: "\<not> truthy (js_get_opt (js_get (JObj ?k2) ''personal_finance_category'') ''primary'')"
    by (simp add: js_get_opt_def nullish_def)
  show b3: "normalized (JObj ?k2) = Inr ?t2"
    by (simp add: normalized_def nullish_def js_or_def js_get_opt_def)
  show b4: "\<not> body_raises rt ?t2"
    by (simp add: body_raises_def cat_def js_or_def js_and_def)
  show b5: "0 < expenseAmount rt ?t2" by (simp add: expenseAmount_def)
  have e2: "expenseAmount rt ?t2 = 3" by (simp add: expenseAmount_def)
  from C5_first_element_or_Other [where kvs = ?k2 and t = ?t2 and rt = rt,
      THEN conjunct2, THEN conjunct1, THEN mp, OF conjI [OF b1 conjI [OF b2 conjI [OF b3 conjI [OF b4 b5]]]],
      THEN conjunct2]
  show "insights_route rt (JObj [(''transactions'', JArr [JObj ?k2])])
       = Json \<lparr>totalThisMonth = 3, topCategories = [\<lparr>entry_name = ''Other'', total = TNum 3\<rparr>]\<rparr>"
    unfolding e2 by simp
  show c1: "normalized (JObj ?k3) = Inr ?t3"
    by (simp add: normalized_def nullish_def js_or_def)
  show c2: "\<not> body_raises rt ?t3"
    by (simp add: body_raises_def cat_def js_or_def js_and_def expenseAmount_def)
  show c3: "expenseAmount rt ?t3 = 0" by (simp add: expenseAmount_def)
  from C5_first_element_or_Other [where kvs = ?k3 and t = ?t3 and rt = rt,
      THEN conjunct2, THEN conjunct2, THEN conjunct1, THEN mp, OF conjI [OF c1 conjI [OF c2 c3]]]
  show "insights_route rt (JObj [(''transactions'', JArr [JObj ?k3])])
       = Json \<lparr>totalThisMonth = 0, topCategories = []\<rparr>" .
qed

text \<open>
  Claim C6 as stated fails on the insights route: the empty mapping normalizes to a
  transaction whose amount is undefined, not a number; and the number 5, which is no
  mapping, is normalized without any failure.
\<close>

theorem C6_counterexample:
  "normalized (JObj []) = Inr \<lparr>date = JUndefined, name = JStr [], amount = JUndefined, category = JStr ''Other''\<rparr>
   \<and> normalized (JNum 5) = Inr \<lparr>date = JUndefined, name = JStr [], amount = JUndefined, category = JStr ''Other''\<rparr>"
  by (simp add: normalizer_defs)

lemma js_or_truthy: "truthy b \<Longrightarrow> truthy (js_or a b)"
  by (simp add: js_or_def)

text \<open>
  Claim C6, amended. The CSV normalizer never fails, and its transaction has a number as
  amount and a non-empty string as category. The normalizer of the insights route fails
  exactly on null and undefined; on every other value, mapping or not, it returns a
  transaction whose amount is the record's \<^verbatim>\<open>amount\<close> member unchanged (undefined when
  there is none) and whose category is truthy, as is the value \<^verbatim>\<open>computeInsights\<close>
  files it under.
\<close>

theorem C6_normalizers_total:
  "(\<exists>q s. amount (upload_csv_record r) = JNum q \<and> category (upload_csv_record r) = JStr s \<and> s \<noteq> [])
   \<and> (normalized t = Inl TypeError \<longleftrightarrow> nullish t)
   \<and> (\<not> nullish t
        \<longrightarrow> (\<exists>tx. normalized t = Inr tx \<and> amount tx = js_get t ''amount''
                  \<and> truthy (category tx) \<and> truthy (cat tx)))"
proof (intro conjI impI)
  show "\<exists>q s. amount (upload_csv_record r) = JNum q \<and> category (upload_csv_record r) = JStr s \<and> s \<noteq> []"
    by (auto simp: upload_csv_record_def js_or_def cell_def split: option.splits)
  show "normalized t = Inl TypeError \<longleftrightarrow> nullish t"
    by (simp add: normalized_def)
next
  assume "\<not> nullish t"
  then show "\<exists>tx. normalized t = Inr tx \<and> amount tx = js_get t ''amount''
                  \<and> truthy (category tx) \<and> truthy (cat tx)"
    by (simp add: normalized_def cat_def js_or_truthy)
qed

text \<open>
  The amended claim C6 at the empty mapping, the empty CSV row and null.
\<close>

theorem C6_witness:
  "\<not> nullish (JObj [])
   \<and> (\<exists>tx. normalized (JObj []) = Inr tx \<and> amount tx = js_get (JObj []) ''amount''
          \<and> truthy (category tx) \<and> truthy (cat tx))
   \<and> (\<exists>q s. amount (upload_csv_record []) = JNum q \<and> category (upload_csv_record []) = JStr s \<and> s \<noteq> [])
   \<and> normalized JNull = Inl TypeError"
proof (intro conjI)
  show h: "\<not> nullish (JObj [])" by (simp add: nullish_def)
  show "\<exists>tx. normalized (JObj []) = Inr tx \<and> amount tx = js_get (JObj []) ''amount''
          \<and> truthy (category tx) \<and> truthy (cat tx)"
    by (rule C6_normalizers_total [THEN conjunct2, THEN conjunct2, THEN mp]) (rule h)
  show "\<exists>q s. amount (upload_csv_record []) = JNum q \<and> category (upload_csv_record []) = JStr s \<and> s \<noteq> []"
    by (rule C6_normalizers_total [THEN conjunct1])
  show "normalized JNull = Inl TypeError"
    using C6_normalizers_total [of "[]" JNull, THEN conjunct2, THEN conjunct1]
    by (simp add: nullish_def)
qed

subsection \<open>The CSV normalizer\<close>

text \<open>
  Claim C4 as stated fails on an amount with a minus sign that is not leading: the code
  keeps the sign and reads 12 from \<^verbatim>\<open>12-34\<close>, where the claim's words remove it and
  read 1234.
\<close>

theorem C4_counterexample:
  "amount (upload_csv_record [(''amount'', ''12-34'')]) = JNum 12
   \<and> spec_amount [(''amount'', ''12-34'')] = 1234"
  by (simp add: csv_defs spec_amount_def spec_first_present_def spec_strip_def spec_parse_decimal_def)

lemma replace_non_numeric_digits:
  "list_all is_digit ds \<Longrightarrow> replace_non_numeric (ds @ s) = ds @ replace_non_numeric s"
  by (induction ds) (simp_all add: replace_non_numeric_def)

lemma not_digit_minus: "\<not> is_digit CHR ''-''"
  by (simp add: is_digit_def)

lemma parseFloat_stops_at_minus:
  assumes "list_all is_digit ds" "ds \<noteq> []"
  shows "parseFloat (ds @ CHR ''-'' # s) = Num (of_nat (decimal ds))"
proof -
  define x where "x = ds @ CHR ''-'' # s"
  from assms have hd: "hd x \<noteq> CHR ''-''"
    unfolding x_def by (cases ds) (auto simp: not_digit_minus)
  from assms(1) have tw: "takeWhile is_digit x = ds"
    unfolding x_def by (simp add: list_all_iff not_digit_minus)
  from assms(1) have dw: "dropWhile is_digit x = CHR ''-'' # s"
    unfolding x_def by (simp add: list_all_iff not_digit_minus)
  have "parseFloat x = Num (of_nat (decimal ds))"
    using assms(2) by (simp add: parseFloat_def hd tw dw Let_def decimal_def)
  then show ?thesis by (simp only: x_def)
qed

lemma amount_chain:
  "js_or (js_or (js_or (js_or (cell r a) (cell r b)) (cell r c)) (cell r d)) (JStr z)
   = JStr (case List.map_filter
        (\<lambda>k. case map_of r k of None \<Rightarrow> None | Some s \<Rightarrow> if s = [] then None else Some s)
        [a, b, c, d] of [] \<Rightarrow> z | s # ss \<Rightarrow> s)"
  by (simp add: js_or_def cell_def List.map_filter_def split: option.splits)

text \<open>
  Claim C4, amended. The CSV normalizer takes the first non-empty cell among the aliases
  amount, Amount, DEBIT, CREDIT (the text 0 when there is none), removes every character
  that is not a digit, a dot or a minus sign, keeping every minus sign wherever it
  stands, and reads the leading decimal numeral of the rest, 0 when there is none or it
  is zero. A minus sign after leading digits ends the numeral. \<^verbatim>\<open>$1,234.56\<close> gives
  1234.56 and \<^verbatim>\<open>N/A\<close> gives 0.
\<close>

theorem C4_amount_resolution:
  "amount (upload_csv_record r)
     = JNum (or_zero (parseFloat (replace_non_numeric
         (case List.map_filter
            (\<lambda>k. case map_of r k of None \<Rightarrow> None | Some s \<Rightarrow> if s = [] then None else Some s)
            [''amount'', ''Amount'', ''DEBIT'', ''CREDIT''] of [] \<Rightarrow> ''0'' | s # ss \<Rightarrow> s))))
   \<and> (list_all is_digit ds \<and> ds \<noteq> []
        \<longrightarrow> amount (upload_csv_record [(''amount'', ds @ ''-'' @ s)]) = JNum (of_nat (decimal ds)))
   \<and> amount (upload_csv_record [(''amount'', ''$1,234.56'')]) = JNum 1234.56
   \<and> amount (upload_csv_record [(''amount'', ''N/A'')]) = JNum 0"
proof (intro conjI impI)
  show "amount (upload_csv_record r)
     = JNum (or_zero (parseFloat (replace_non_numeric
         (case List.map_filter
            (\<lambda>k. case map_of r k of None \<Rightarrow> None | Some s \<Rightarrow> if s = [] then None else Some s)
            [''amount'', ''Amount'', ''DEBIT'', ''CREDIT''] of [] \<Rightarrow> ''0'' | s # ss \<Rightarrow> s))))"
    by (simp add: upload_csv_record_def amount_chain)
  show "amount (upload_csv_record [(''amount'', ''$1,234.56'')]) = JNum 1234.56"
    by (simp add: csv_defs)
  show "amount (upload_csv_record [(''amount'', ''N/A'')]) = JNum 0"
    by (simp add: csv_defs)
next
  assume a: "list_all is_digit ds \<and> ds \<noteq> []"
  then have "replace_non_numeric (ds @ ''-'' @ s) = ds @ CHR ''-'' # replace_non_numeric s"
    by (simp add: replace_non_numeric_digits) (simp add: replace_non_numeric_def)
  moreover from a have "ds @ ''-'' @ s \<noteq> []" by simp
  ultimately show "amount (upload_csv_record [(''amount'', ds @ ''-'' @ s)]) = JNum (of_nat (decimal ds))"
    using a by (simp add: upload_csv_record_def cell_def js_or_def parseFloat_stops_at_minus)
qed

text \<open>
  The amended claim C4 at the amount \<^verbatim>\<open>12-34\<close>.
\<close>

theorem C4_witness:
  "list_all is_digit ''12'' \<and> ''12'' \<noteq> []
   \<and> amount (upload_csv_record [(''amount'', ''12'' @ ''-'' @ ''34'')]) = JNum 12"
proof (intro conjI)
  show h1: "list_all is_digit ''12''" by (simp add: is_digit_def)
  show h2: "''12'' \<noteq> []" by simp
  show "amount (upload_csv_record [(''amount'', ''12'' @ ''-'' @ ''34'')]) = JNum 12"
    using C4_amount_resolution [of "[]" "''12''" "''34''", THEN conjunct2, THEN conjunct1, THEN mp] h1 h2
    by (simp add: decimal_def digit_value_def)
qed

lemma map_of_filter_key:
  "map_of (filter (\<lambda>p. fst p \<noteq> k) r) k' = (if k' = k then None else map_of r k')"
  by (induction r) auto

lemma cell_filter_key:
  "cell (filter (\<lambda>p. fst p \<noteq> k) r) k' = (if k' = k then JUndefined else cell r k')"
  by (simp add: cell_def map_of_filter_key)

lemma js_get_filter_key:
  "js_get (JObj (filter (\<lambda>p. fst p \<noteq> k) kvs)) k'
   = (if k' = k then JUndefined else js_get (JObj kvs) k')"
  by (simp add: map_of_filter_key)

lemma js_get_opt_falsy: "\<not> truthy v \<Longrightarrow> js_get_opt v k = JUndefined"
  by (cases v) (simp_all add: js_get_opt_def nullish_def)

text \<open>
  Claim C10 as stated fails for the date, whose chain of aliases ends in no literal
  default. In a CSV row whose first column is \<^verbatim>\<open>date\<close> with an empty cell, the empty cell is
  the date, while without that column the date is the cell of the column that then comes
  first. In a posted record whose only date alias is \<^verbatim>\<open>authorized_date\<close> bound to 0, the
  date is 0, while without that member it is undefined.
\<close>

theorem C10_counterexample:
  "date (upload_csv_record [(''date'', ''''), (''x'', ''5'')]) = JStr ''''
   \<and> date (upload_csv_record [(''x'', ''5'')]) = JStr ''5''
   \<and> map_sum id date (normalized (JObj [(''authorized_date'', JNum 0)])) = Inr (JNum 0)
   \<and> map_sum id date (normalized (JObj [])) = Inr JUndefined"
  by (simp add: upload_csv_record_def cell_def js_or_def first_column_def own_property_order_def
        is_array_index_def is_digit_def normalized_def nullish_def)

lemma date_filter_key:
  assumes "truthy (cell r ''date'') \<or> truthy (cell r ''Date'') \<or> truthy (cell r ''TRANSACTION_DATE'')"
    and "map_of r k = Some []"
  shows "date (upload_csv_record (filter (\<lambda>p. fst p \<noteq> k) r)) = date (upload_csv_record r)"
proof -
  from assms(2) have c: "cell r k = JStr []" by (simp add: cell_def)
  show ?thesis using assms(1) c
    by (auto simp: upload_csv_record_def cell_filter_key js_or_def)
qed

text \<open>
  Claim C10, amended. Every chain of aliases yields the value of the first alias, in the
  order of its list, that is bound to a truthy value; an alias bound to a falsy value
  (the empty string, 0, null, false) is passed over like an absent one; when no alias is
  truthy the chain yields its last operand. That operand is a literal for name, amount
  and category (the empty string, \<^verbatim>\<open>'0'\<close>, \<^verbatim>\<open>Other\<close>); for the date it is the cell of the
  row's first column (CSV) and the value of \<^verbatim>\<open>authorized_date\<close> as it is, falsy or not
  (insights route). So removing from a CSV row a column whose cell is empty changes
  neither name, amount nor category, and not the date when one of the date aliases is
  non-empty; removing from a posted record a member bound to a falsy value changes
  neither name nor category, and not the date unless the member is \<^verbatim>\<open>authorized_date\<close>.
  A row with amount empty and DEBIT 5.00 has amount 5, an empty category gives \<^verbatim>\<open>Other\<close>,
  and a row whose name aliases are all empty has the empty name.
\<close>

theorem C10_falsy_alias_is_skipped:
  "name (upload_csv_record r)
     = spec_first_truthy (map (cell r) [''description'', ''Description'', ''NAME'', ''Merchant'']) (JStr '''')
   \<and> category (upload_csv_record r)
     = spec_first_truthy (map (cell r) [''category'', ''Category'']) (JStr ''Other'')
   \<and> amount (upload_csv_record r)
     = JNum (or_zero (parseFloat (replace_non_numeric (string_value
         (spec_first_truthy (map (cell r) [''amount'', ''Amount'', ''DEBIT'', ''CREDIT'']) (JStr ''0''))))))
   \<and> date (upload_csv_record r)
     = spec_first_truthy (map (cell r) [''date'', ''Date'', ''TRANSACTION_DATE'']) (first_column r)
   \<and> map_sum id name (normalized (JObj kvs))
     = Inr (spec_first_truthy (map (js_get (JObj kvs)) [''name'', ''merchant_name'']) (JStr ''''))
   \<and> map_sum id category (normalized (JObj kvs))
     = Inr (spec_first_truthy
         [js_get (JObj kvs) ''category'',
          js_get_opt (js_get (JObj kvs) ''personal_finance_category'') ''primary''] (JStr ''Other''))
   \<and> map_sum id date (normalized (JObj kvs))
     = Inr (spec_first_truthy (map (js_get (JObj kvs)) [''date'', ''datetime''])
         (js_get (JObj kvs) ''authorized_date''))
   \<and> (map_of r k = Some []
      \<longrightarrow> name (upload_csv_record (filter (\<lambda>p. fst p \<noteq> k) r)) = name (upload_csv_record r)
        \<and> amount (upload_csv_record (filter (\<lambda>p. fst p \<noteq> k) r)) = amount (upload_csv_record r)
        \<and> category (upload_csv_record (filter (\<lambda>p. fst p \<noteq> k) r)) = category (upload_csv_record r))
   \<and> (map_of r k = Some []
        \<and> (truthy (cell r ''date'') \<or> truthy (cell r ''Date'') \<or> truthy (cell r ''TRANSACTION_DATE''))
      \<longrightarrow> date (upload_csv_record (filter (\<lambda>p. fst p \<noteq> k) r)) = date (upload_csv_record r))
   \<and> (map_of kvs k = Some v \<and> \<not> truthy v
      \<longrightarrow> map_sum id name (normalized (JObj (filter (\<lambda>p. fst p \<noteq> k) kvs)))
            = map_sum id name (normalized (JObj kvs))
        \<and> map_sum id category (normalized (JObj (filter (\<lambda>p. fst p \<noteq> k) kvs)))
            = map_sum id category (normalized (JObj kvs)))
   \<and> (map_of kvs k = Some v \<and> \<not> truthy v \<and> k \<noteq> ''authorized_date''
      \<longrightarrow> map_sum id date (normalized (JObj (filter (\<lambda>p. fst p \<noteq> k) kvs)))
            = map_sum id date (normalized (JObj kvs)))
   \<and> amount (upload_csv_record [(''amount'', ''''), (''DEBIT'', ''5.00'')]) = JNum 5
   \<and> category (upload_csv_record [(''category'', '''')]) = JStr ''Other''
   \<and> name (upload_csv_record [(''description'', ''''), (''Description'', ''''), (''NAME'', ''''),
        (''Merchant'', '''')]) = JStr ''''"
proof (intro conjI impI)
  show "name (upload_csv_record r)
     = spec_first_truthy (map (cell r) [''description'', ''Description'', ''NAME'', ''Merchant'']) (JStr '''')"
    by (simp add: upload_csv_record_def js_or_def)
  show "category (upload_csv_record r)
     = spec_first_truthy (map (cell r) [''category'', ''Category'']) (JStr ''Other'')"
    by (simp add: upload_csv_record_def js_or_def)
  show "amount (upload_csv_record r)
     = JNum (or_zero (parseFloat (replace_non_numeric (string_value
         (spec_first_truthy (map (cell r) [''amount'', ''Amount'', ''DEBIT'', ''CREDIT'']) (JStr ''0''))))))"
    by (simp add: upload_csv_record_def js_or_def)
  show "date (upload_csv_record r)
     = spec_first_truthy (map (cell r) [''date'', ''Date'', ''TRANSACTION_DATE'']) (first_column r)"
    by (simp add: upload_csv_record_def js_or_def)
  show "map_sum id name (normalized (JObj kvs))
     = Inr (spec_first_truthy (map (js_get (JObj kvs)) [''name'', ''merchant_name'']) (JStr ''''))"
    by (simp add: normalized_def nullish_def js_or_def del: js_get.simps)
  show "map_sum id category (normalized (JObj kvs))
     = Inr (spec_first_truthy
         [js_get (JObj kvs) ''category'',
          js_get_opt (js_get (JObj kvs) ''personal_finance_category'') ''primary''] (JStr ''Other''))"
    by (simp add: normalized_def nullish_def js_or_def del: js_get.simps)
  show "map_sum id date (normalized (JObj kvs))
     = Inr (spec_first_truthy (map (js_get (JObj kvs)) [''date'', ''datetime''])
         (js_get (JObj kvs) ''authorized_date''))"
    by (simp add: normalized_def nullish_def js_or_def del: js_get.simps)
  show "amount (upload_csv_record [(''amount'', ''''), (''DEBIT'', ''5.00'')]) = JNum 5"
    by (simp add: csv_defs)
  show "category (upload_csv_record [(''category'', '''')]) = JStr ''Other''"
    by (simp add: csv_defs)
  show "name (upload_csv_record [(''description'', ''''), (''Description'', ''''), (''NAME'', ''''),
        (''Merchant'', '''')]) = JStr ''''"
    by (simp add: csv_defs)
next
  assume a: "map_of r k = Some []"
  then have c: "cell r k = JStr []" by (simp add: cell_def)
  show "name (upload_csv_record (filter (\<lambda>p. fst p \<noteq> k) r)) = name (upload_csv_record r)"
    using c by (simp add: upload_csv_record_def cell_filter_key js_or_def)
  show "amount (upload_csv_record (filter (\<lambda>p. fst p \<noteq> k) r)) = amount (upload_csv_record r)"
    using c by (simp add: upload_csv_record_def cell_filter_key js_or_def)
  show "category (upload_csv_record (filter (\<lambda>p. fst p \<noteq> k) r)) = category (upload_csv_record r)"
    using c by (simp add: upload_csv_record_def cell_filter_key js_or_def)
next
  assume a: "map_of r k = Some []
        \<and> (truthy (cell r ''date'') \<or> truthy (cell r ''Date'') \<or> truthy (cell r ''TRANSACTION_DATE''))"
  then show "date (upload_csv_record (filter (\<lambda>p. fst p \<noteq> k) r)) = date (upload_csv_record r)"
    by (intro date_filter_key) simp_all
next
  assume a: "map_of kvs k = Some v \<and> \<not> truthy v"
  then have g: "js_get (JObj kvs) k = v" and f: "\<not> truthy v" by simp_all
  have u: "js_get_opt JUndefined ''primary'' = JUndefined" by (simp add: js_get_opt_def nullish_def)
  show "map_sum id name (normalized (JObj (filter (\<lambda>p. fst p \<noteq> k) kvs)))
            = map_sum id name (normalized (JObj kvs))"
    using g f by (auto simp: normalized_def nullish_def js_get_filter_key js_or_def simp del: js_get.simps)
  show "map_sum id category (normalized (JObj (filter (\<lambda>p. fst p \<noteq> k) kvs)))
            = map_sum id category (normalized (JObj kvs))"
    using g f js_get_opt_falsy [OF f, of "''primary''"] u
    by (auto simp: normalized_def nullish_def js_get_filter_key js_or_def simp del: js_get.simps)
next
  assume a: "map_of kvs k = Some v \<and> \<not> truthy v \<and> k \<noteq> ''authorized_date''"
  then have g: "js_get (JObj kvs) k = v" and f: "\<not> truthy v" and k: "k \<noteq> ''authorized_date''"
    by simp_all
  show "map_sum id date (normalized (JObj (filter (\<lambda>p. fst p \<noteq> k) kvs)))
               = map_sum id date (normalized (JObj kvs))"
    using g f k
    by (auto simp: normalized_def nullish_def js_get_filter_key js_or_def simp del: js_get.simps)
qed

text \<open>
  The amended claim C10 at a CSV row with an empty amount, at a row with a date and an
  empty name, at a posted record whose category is 0 and whose structured category is
  TRAVEL, and at a posted record whose date is null.
\<close>

theorem C10_witness:
  "map_of [(''amount'', ''''), (''DEBIT'', ''5.00'')] ''amount'' = Some []
   \<and> amount (upload_csv_record [(''amount'', ''''), (''DEBIT'', ''5.00'')])
       = amount (upload_csv_record [(''DEBIT'', ''5.00'')])
   \<and> map_of [(''Date'', ''2024-01-05''), (''NAME'', '''')] ''NAME'' = Some []
   \<and> truthy (cell [(''Date'', ''2024-01-05''), (''NAME'', '''')] ''Date'')
   \<and> date (upload_csv_record [(''Date'', ''2024-01-05'')]) = JStr ''2024-01-05''
   \<and> date (upload_csv_record [(''Date'', ''2024-01-05''), (''NAME'', '''')]) = JStr ''2024-01-05''
   \<and> map_of [(''category'', JNum 0), (''personal_finance_category'', JObj [(''primary'', JStr ''TRAVEL'')])]
        ''category'' = Some (JNum 0)
   \<and> \<not> truthy (JNum 0)
   \<and> map_sum id category (normalized (JObj [(''category'', JNum 0),
        (''personal_finance_category'', JObj [(''primary'', JStr ''TRAVEL'')])]))
       = Inr (JStr ''TRAVEL'')
   \<and> map_sum id category (normalized (JObj
          [(''personal_finance_category'', JObj [(''primary'', JStr ''TRAVEL'')])]))
       = Inr (JStr ''TRAVEL'')
   \<and> map_of [(''date'', JNull), (''datetime'', JStr ''2024-01-05T10:00''),
         (''authorized_date'', JStr ''2024-01-04'')] ''date'' = Some JNull
   \<and> \<not> truthy JNull
   \<and> ''date'' \<noteq> ''authorized_date''
   \<and> map_sum id date (normalized (JObj [(''date'', JNull), (''datetime'', JStr ''2024-01-05T10:00''),
         (''authorized_date'', JStr ''2024-01-04'')])) = Inr (JStr ''2024-01-05T10:00'')
   \<and> map_sum id date (normalized (JObj [(''datetime'', JStr ''2024-01-05T10:00''),
         (''authorized_date'', JStr ''2024-01-04'')])) = Inr (JStr ''2024-01-05T10:00'')"
proof (intro conjI)
  let ?r2 = "[(''Date'', ''2024-01-05''), (''NAME'', '''')]"
  let ?k1 = "[(''category'', JNum 0), (''personal_finance_category'', JObj [(''primary'', JStr ''TRAVEL'')])]"
  let ?k2 = "[(''date'', JNull), (''datetime'', JStr ''2024-01-05T10:00''),
         (''authorized_date'', JStr ''2024-01-04'')]"
  show h1: "map_of [(''amount'', ''''), (''DEBIT'', ''5.00'')] ''amount'' = Some []" by simp
  show "amount (upload_csv_record [(''amount'', ''''), (''DEBIT'', ''5.00'')])
       = amount (upload_csv_record [(''DEBIT'', ''5.00'')])"
    using C10_falsy_alias_is_skipped [THEN conjunct2, THEN conjunct2, THEN conjunct2, THEN conjunct2,
        THEN conjunct2, THEN conjunct2, THEN conjunct2, THEN conjunct1, THEN mp, OF h1,
        THEN conjunct2, THEN conjunct1]
    by simp
  show d1: "map_of ?r2 ''NAME'' = Some []" by simp
  show d2: "truthy (cell ?r2 ''Date'')" by (simp add: cell_def)
  have d3: "truthy (cell ?r2 ''date'') \<or> truthy (cell ?r2 ''Date'') \<or> truthy (cell ?r2 ''TRANSACTION_DATE'')"
    using d2 by simp
  show d4: "date (upload_csv_record [(''Date'', ''2024-01-05'')]) = JStr ''2024-01-05''"
    using C10_falsy_alias_is_skipped [where r = "[(''Date'', ''2024-01-05'')]",
        THEN conjunct2, THEN conjunct2, THEN conjunct2, THEN conjunct1]
    by (simp add: cell_def)
  from C10_falsy_alias_is_skipped [where r = ?r2 and k = "''NAME''",
        THEN conjunct2, THEN conjunct2, THEN conjunct2, THEN conjunct2,
        THEN conjunct2, THEN conjunct2, THEN conjunct2, THEN conjunct2, THEN conjunct1, THEN mp,
        OF conjI [OF d1 d3]]
  show "date (upload_csv_record ?r2) = JStr ''2024-01-05''"
    using d4 by simp
  show h2: "map_of ?k1 ''category'' = Some (JNum 0)" by simp
  show h3: "\<not> truthy (JNum 0)" by simp
  show c1: "map_sum id category (normalized (JObj ?k1)) = Inr (JStr ''TRAVEL'')"
    using C10_falsy_alias_is_skipped [where kvs = ?k1,
        THEN conjunct2, THEN conjunct2, THEN conjunct2, THEN conjunct2,
        THEN conjunct2, THEN conjunct1]
    by (simp add: js_get_opt_def nullish_def)
  from C10_falsy_alias_is_skipped [where kvs = ?k1 and k = "''category''" and v = "JNum 0",
        THEN conjunct2, THEN conjunct2, THEN conjunct2, THEN conjunct2,
        THEN conjunct2, THEN conjunct2, THEN conjunct2, THEN conjunct2, THEN conjunct2, THEN conjunct1,
        THEN mp, OF conjI [OF h2 h3], THEN conjunct2]
  show "map_sum id category (normalized (JObj
          [(''personal_finance_category'', JObj [(''primary'', JStr ''TRAVEL'')])]))
       = Inr (JStr ''TRAVEL'')"
    using c1 by simp
  show e1: "map_of ?k2 ''date'' = Some JNull" by simp
  show e2: "\<not> truthy JNull" by simp
  show e3: "''date'' \<noteq> ''authorized_date''" by simp
  show e4: "map_sum id date (normalized (JObj ?k2)) = Inr (JStr ''2024-01-05T10:00'')"
    using C10_falsy_alias_is_skipped [where kvs = ?k2,
        THEN conjunct2, THEN conjunct2, THEN conjunct2, THEN conjunct2,
        THEN conjunct2, THEN conjunct2, THEN conjunct1]
    by simp
  from C10_falsy_alias_is_skipped [where kvs = ?k2 and k = "''date''" and v = JNull,
        THEN conjunct2, THEN conjunct2, THEN conjunct2, THEN conjunct2,
        THEN conjunct2, THEN conjunct2, THEN conjunct2, THEN conjunct2, THEN conjunct2, THEN conjunct2,
        THEN conjunct1, THEN mp, OF conjI [OF e1 conjI [OF e2 e3]]]
  show "map_sum id date (normalized (JObj [(''datetime'', JStr ''2024-01-05T10:00''),
         (''authorized_date'', JStr ''2024-01-04'')])) = Inr (JStr ''2024-01-05T10:00'')"
    using e4 by simp
qed

section \<open>The ranking of the categories\<close>

subsection \<open>The accumulator on labels it does not inherit\<close>

lemma assign_keys:
  "map fst (assign S k v) = (if k \<in> set (map fst S) then map fst S else map fst S @ [k])"
  by (induction S) auto

lemma assign_numbers:
  "list_all (\<lambda>p. \<exists>n. snd p = TNum n) S
   \<Longrightarrow> list_all (\<lambda>p. \<exists>n. snd p = TNum n) (assign S k (TNum m))"
  by (induction S) auto

lemma map_of_numbers:
  "list_all (\<lambda>p. \<exists>n. snd p = TNum n) S \<Longrightarrow> map_of S k = Some v \<Longrightarrow> \<exists>n. v = TNum n"
  by (induction S) (auto split: if_splits)

lemma accumulate_plain:
  assumes "k \<notin> set inherited_names" "list_all (\<lambda>p. \<exists>n. snd p = TNum n) S"
  shows "\<exists>m. accumulate rt S k e = assign S k (TNum m)"
proof (cases "map_of S k")
  case None
  from assms(1) have a: "k \<noteq> ''__proto__''" and b: "k \<notin> set object_prototype_methods"
    by (simp_all add: inherited_names_def)
  have "accumulate rt S k e = assign S k (TNum (0 + e))"
    unfolding accumulate_def None using a b by simp
  then show ?thesis by (rule exI)
next
  case (Some v)
  from map_of_numbers [OF assms(2) Some] obtain n where v: "v = TNum n" ..
  have "accumulate rt S k e = assign S k (TNum ((if n \<noteq> 0 then n else 0) + e))"
    unfolding accumulate_def Some v by simp
  then show ?thesis by (rule exI)
qed

lemma loop_snoc: "loop rt (ts @ [t]) = loop_body rt (loop rt ts) t"
  by (simp add: loop_def)

lemma first_seen_snoc:
  "rev (remdups (rev (xs @ [x]))) = (if x \<in> set xs then rev (remdups (rev xs)) else rev (remdups (rev xs)) @ [x])"
  by simp

lemma set_first_seen: "set (rev (remdups (rev xs))) = set xs"
  by simp

lemma loop_plain:
  assumes "list_all (\<lambda>k. k \<notin> set inherited_names)
             (map (\<lambda>t. to_string rt (cat t)) (filter (\<lambda>t. 0 < expenseAmount rt t) ts))"
  shows "map fst (snd (loop rt ts))
           = rev (remdups (rev (map (\<lambda>t. to_string rt (cat t)) (filter (\<lambda>t. 0 < expenseAmount rt t) ts))))
         \<and> list_all (\<lambda>p. \<exists>n. snd p = TNum n) (snd (loop rt ts))"
  using assms
proof (induction ts rule: rev_induct)
  case Nil
  show ?case by (simp add: loop_def)
next
  case (snoc t ts)
  let ?L = "map (\<lambda>t. to_string rt (cat t)) (filter (\<lambda>t. 0 < expenseAmount rt t) ts)"
  from snoc.prems have "list_all (\<lambda>k. k \<notin> set inherited_names) ?L" by simp
  with snoc.IH have keys: "map fst (snd (loop rt ts)) = rev (remdups (rev ?L))"
    and nums: "list_all (\<lambda>p. \<exists>n. snd p = TNum n) (snd (loop rt ts))" by simp_all
  obtain a S where aS: "loop rt ts = (a, S)" by (cases "loop rt ts")
  show ?case
  proof (cases "0 < expenseAmount rt t")
    case False
    then show ?thesis using keys nums aS by (simp add: loop_snoc)
  next
    case True
    with snoc.prems have plain: "to_string rt (cat t) \<notin> set inherited_names" by simp
    from nums aS have numsS: "list_all (\<lambda>p. \<exists>n. snd p = TNum n) S" by simp
    from accumulate_plain [OF plain numsS]
    obtain m where m: "accumulate rt S (to_string rt (cat t)) (expenseAmount rt t)
        = assign S (to_string rt (cat t)) (TNum m)" by blast
    from True aS m have step: "snd (loop rt (ts @ [t])) = assign S (to_string rt (cat t)) (TNum m)"
      by (simp add: loop_snoc)
    from keys aS have kS: "map fst S = rev (remdups (rev ?L))" by simp
    have "map fst (assign S (to_string rt (cat t)) (TNum m))
            = rev (remdups (rev (?L @ [to_string rt (cat t)])))"
      unfolding assign_keys kS first_seen_snoc set_first_seen by simp
    moreover have "list_all (\<lambda>p. \<exists>n. snd p = TNum n) (assign S (to_string rt (cat t)) (TNum m))"
      using numsS by (rule assign_numbers)
    ultimately show ?thesis using True unfolding step by simp
  qed
qed

subsection \<open>The order of the entries\<close>

lemma map_fst_insort_key:
  "map fst (insort_key (\<lambda>p. g (fst p)) a xs) = insort_key g (fst a) (map fst xs)"
  by (induction xs) auto

lemma map_fst_sort_key:
  "map fst (sort_key (\<lambda>p. g (fst p)) xs) = sort_key g (map fst xs)"
  by (induction xs) (simp_all add: map_fst_insort_key)

lemma map_fst_filter:
  "map fst (filter (\<lambda>p. P (fst p)) xs) = filter P (map fst xs)"
  by (induction xs) auto

lemma own_property_order_keys:
  "map fst (own_property_order S)
   = sort_key decimal (filter is_array_index (map fst S))
     @ filter (\<lambda>k. \<not> is_array_index k) (map fst S)"
  by (simp add: own_property_order_def map_fst_sort_key map_fst_filter
        map_fst_filter [of "\<lambda>k. \<not> is_array_index k"])

lemma own_property_order_set: "set (own_property_order S) = set S"
  by (auto simp: own_property_order_def)

subsection \<open>Sorting numbers\<close>

lemma comparator_numbers:
  "snd a = TNum x \<Longrightarrow> snd b = TNum y \<Longrightarrow> comparator rt a b \<le> 0 \<longleftrightarrow> - x \<le> - y"
  by (simp add: comparator_def)

lemma sort_insert_numbers:
  assumes "\<exists>n. snd a = TNum n" "list_all (\<lambda>p. \<exists>n. snd p = TNum n) bs"
  shows "sort_insert rt a bs = insort_key (\<lambda>p. case snd p of TNum n \<Rightarrow> - n | TStr s \<Rightarrow> 0) a bs"
  using assms
proof (induction bs)
  case Nil
  show ?case by simp
next
  case (Cons b bs)
  from Cons.prems obtain x y where xy: "snd a = TNum x" "snd b = TNum y" by auto
  from Cons.prems Cons.IH
  have IH: "sort_insert rt a bs = insort_key (\<lambda>p. case snd p of TNum n \<Rightarrow> - n | TStr s \<Rightarrow> 0) a bs"
    by simp
  show ?case using xy IH comparator_numbers [OF xy, of rt] by simp
qed

lemma js_sort_numbers:
  assumes "list_all (\<lambda>p. \<exists>n. snd p = TNum n) es"
  shows "js_sort rt es = sort_key (\<lambda>p. case snd p of TNum n \<Rightarrow> - n | TStr s \<Rightarrow> 0) es"
  using assms
proof (induction es)
  case Nil
  show ?case by (simp add: js_sort_def)
next
  case (Cons e es)
  let ?key = "\<lambda>p::string \<times> total. case snd p of TNum n \<Rightarrow> - n | TStr s \<Rightarrow> 0"
  from Cons have IH: "js_sort rt es = sort_key ?key es" by simp
  from Cons.prems have "list_all (\<lambda>p. \<exists>n. snd p = TNum n) (sort_key ?key es)"
    by (simp add: list_all_iff)
  with Cons.prems have "sort_insert rt e (sort_key ?key es) = insort_key ?key e (sort_key ?key es)"
    by (intro sort_insert_numbers) simp_all
  with IH show ?case by (simp add: js_sort_def)
qed

lemma filter_total_numbers:
  assumes "list_all (\<lambda>p. \<exists>n. snd p = TNum n) xs"
  shows "filter (\<lambda>p. snd p = v) xs
         = (case v of
              TNum n \<Rightarrow> filter (\<lambda>p. (case snd p of TNum m \<Rightarrow> - m | TStr s \<Rightarrow> 0) = - n) xs
            | TStr s \<Rightarrow> [])"
  using assms by (induction xs) (auto split: total.splits)

lemma sort_key_keeps_ties:
  fixes xs :: "(string \<times> total) list"
  assumes "list_all (\<lambda>p. \<exists>n. snd p = TNum n) xs"
  shows "filter (\<lambda>p. snd p = v)
           (sort_key (\<lambda>p. case snd p of TNum m \<Rightarrow> - m | TStr s \<Rightarrow> 0) xs)
         = filter (\<lambda>p. snd p = v) xs"
proof -
  let ?key = "\<lambda>p::string \<times> total. case snd p of TNum m \<Rightarrow> - m | TStr s \<Rightarrow> (0::rat)"
  from assms have s: "list_all (\<lambda>p. \<exists>n. snd p = TNum n) (sort_key ?key xs)"
    by (simp add: list_all_iff)
  have "filter (\<lambda>p. snd p = v) (sort_key ?key xs)
        = (case v of TNum n \<Rightarrow> filter (\<lambda>p. ?key p = - n) (sort_key ?key xs) | TStr s \<Rightarrow> [])"
    by (rule filter_total_numbers [OF s])
  also have "\<dots> = (case v of TNum n \<Rightarrow> filter (\<lambda>p. ?key p = - n) xs | TStr s \<Rightarrow> [])"
    by (simp add: sort_key_stable split: total.splits)
  also have "\<dots> = filter (\<lambda>p. snd p = v) xs"
    by (rule filter_total_numbers [OF assms, symmetric])
  finally show ?thesis .
qed

lemma sorted_totals:
  "sorted_wrt (\<ge>) (map (\<lambda>p. - (case snd p of TNum m \<Rightarrow> - m | TStr s \<Rightarrow> (0::rat)))
      (sort_key (\<lambda>p. case snd p of TNum m \<Rightarrow> - m | TStr s \<Rightarrow> 0) (xs :: (string \<times> total) list)))"
proof -
  let ?key = "\<lambda>p::string \<times> total. case snd p of TNum m \<Rightarrow> - m | TStr s \<Rightarrow> (0::rat)"
  have "sorted (map ?key (sort_key ?key xs))" by (rule sorted_sort_key)
  then have "sorted_wrt (\<lambda>a b. ?key a \<le> ?key b) (sort_key ?key xs)"
    by (simp only: sorted_wrt_map)
  then have "sorted_wrt (\<lambda>a b. - ?key a \<ge> - ?key b) (sort_key ?key xs)"
    by (rule sorted_wrt_mono_rel [rotated]) simp
  then show ?thesis by (simp only: sorted_wrt_map)
qed

lemma totals_of_numbers:
  assumes "list_all (\<lambda>p. \<exists>n. snd p = TNum n) xs"
  shows "map snd xs = map TNum (map (\<lambda>p. - (case snd p of TNum m \<Rightarrow> - m | TStr s \<Rightarrow> 0)) xs)"
  using assms by (induction xs) auto

text \<open>
  Claim C3, amended. \<^verbatim>\<open>topCategories\<close> never has more than 5 entries. When no category
  label of the batch is a name that \<^verbatim>\<open>categoryTotals\<close> inherits from \<^verbatim>\<open>Object.prototype\<close>,
  it is the first 5 of a list \<open>full\<close> of all categories whose totals are numbers in
  non-increasing order, and in which the categories of any one total stand in the order
  of \<^verbatim>\<open>Object.entries(categoryTotals)\<close>. That order is not the order of first encounter:
  it lists the labels that are array indices first, in ascending numeric order, and
  then the other labels in the order in which the batch first shows them.
\<close>

theorem C3_top_categories_order:
  fixes rt :: runtime and ts :: "transaction list"
  defines "labels \<equiv> map (\<lambda>t. to_string rt (cat t)) (filter (\<lambda>t. 0 < expenseAmount rt t) ts)"
  defines "entries \<equiv> map (\<lambda>e. \<lparr>entry_name = fst e, total = snd e\<rparr>)
                        (own_property_order (snd (loop rt ts)))"
  shows "length (topCategories (computeInsights rt ts)) \<le> 5
       \<and> (list_all (\<lambda>k. k \<notin> set inherited_names) labels \<longrightarrow>
            (\<exists>full ns. topCategories (computeInsights rt ts) = take 5 full
               \<and> map total full = map TNum ns \<and> sorted_wrt (\<ge>) ns
               \<and> (\<forall>v. filter (\<lambda>c. total c = v) full = filter (\<lambda>c. total c = v) entries))
            \<and> map entry_name entries
                = sort_key decimal (filter is_array_index (rev (remdups (rev labels))))
                  @ filter (\<lambda>k. \<not> is_array_index k) (rev (remdups (rev labels))))"
proof (intro conjI impI)
  show "length (topCategories (computeInsights rt ts)) \<le> 5"
    by (simp add: computeInsights_def)
next
  assume plain: "list_all (\<lambda>k. k \<notin> set inherited_names) labels"
  let ?key = "\<lambda>p::string \<times> total. case snd p of TNum m \<Rightarrow> - m | TStr s \<Rightarrow> (0::rat)"
  let ?mk = "\<lambda>e::string \<times> total. \<lparr>entry_name = fst e, total = snd e\<rparr>"
  let ?E = "own_property_order (snd (loop rt ts))"
  from loop_plain [OF plain [unfolded labels_def]]
  have keys: "map fst (snd (loop rt ts)) = rev (remdups (rev labels))"
    and nums: "list_all (\<lambda>p. \<exists>n. snd p = TNum n) (snd (loop rt ts))"
    by (simp_all add: labels_def)
  from nums have numsE: "list_all (\<lambda>p. \<exists>n. snd p = TNum n) ?E"
    by (simp add: list_all_iff own_property_order_set)
  then have numsF: "list_all (\<lambda>p. \<exists>n. snd p = TNum n) (sort_key ?key ?E)"
    by (simp add: list_all_iff)
  have top: "topCategories (computeInsights rt ts) = take 5 (map ?mk (sort_key ?key ?E))"
    by (simp add: computeInsights_def js_sort_numbers [OF numsE] take_map)
  have t: "map total (map ?mk (sort_key ?key ?E)) = map TNum (map (\<lambda>p. - ?key p) (sort_key ?key ?E))"
    using totals_of_numbers [OF numsF] by (simp add: comp_def)
  have f: "filter (\<lambda>c. total c = v) (map ?mk (sort_key ?key ?E)) = filter (\<lambda>c. total c = v) entries" for v
    using sort_key_keeps_ties [OF numsE, of v]
    by (simp add: entries_def filter_map comp_def)
  show "\<exists>full ns. topCategories (computeInsights rt ts) = take 5 full
             \<and> map total full = map TNum ns \<and> sorted_wrt (\<ge>) ns
             \<and> (\<forall>v. filter (\<lambda>c. total c = v) full = filter (\<lambda>c. total c = v) entries)"
    using top t sorted_totals [of ?E] f by blast
  show "map entry_name entries
           = sort_key decimal (filter is_array_index (rev (remdups (rev labels))))
             @ filter (\<lambda>k. \<not> is_array_index k) (rev (remdups (rev labels)))"
    using own_property_order_keys [of "snd (loop rt ts)"] keys
    by (simp add: entries_def comp_def)
qed

text \<open>
  Claim C3 as stated fails on ties between labels that are array indices: the batch
  shows category \<^verbatim>\<open>2\<close> before category \<^verbatim>\<open>1\<close>, both with total 5, and \<^verbatim>\<open>topCategories\<close> lists
  \<^verbatim>\<open>1\<close> first.
\<close>

theorem C3_counterexample:
  "\<forall>rt. computeInsights rt
     [\<lparr>date = JStr ''2024-01-05'', name = JStr ''Cafe'', amount = JNum 5, category = JStr ''2''\<rparr>,
      \<lparr>date = JStr ''2024-01-06'', name = JStr ''Diner'', amount = JNum 5, category = JStr ''1''\<rparr>]
   = \<lparr>totalThisMonth = 10,
      topCategories = [\<lparr>entry_name = ''1'', total = TNum 5\<rparr>, \<lparr>entry_name = ''2'', total = TNum 5\<rparr>]\<rparr>"
  by (simp add: insights_defs)

text \<open>
  The amended claim C3 at a batch with the labels 2, 1, B, A in this order: none is
  inherited, and \<^verbatim>\<open>Object.entries\<close> lists them as 1, 2, B, A.
\<close>

theorem C3_witness:
  "\<forall>rt. list_all (\<lambda>k. k \<notin> set inherited_names)
       (map (\<lambda>t. to_string rt (cat t)) (filter (\<lambda>t. 0 < expenseAmount rt t)
         [\<lparr>date = JNull, name = JNull, amount = JNum 5, category = JStr ''2''\<rparr>,
          \<lparr>date = JNull, name = JNull, amount = JNum 5, category = JStr ''1''\<rparr>,
          \<lparr>date = JNull, name = JNull, amount = JNum 7, category = JStr ''B''\<rparr>,
          \<lparr>date = JNull, name = JNull, amount = JNum 7, category = JStr ''A''\<rparr>]))
     \<and> map entry_name (map (\<lambda>e. \<lparr>entry_name = fst e, total = snd e\<rparr>)
         (own_property_order (snd (loop rt
         [\<lparr>date = JNull, name = JNull, amount = JNum 5, category = JStr ''2''\<rparr>,
          \<lparr>date = JNull, name = JNull, amount = JNum 5, category = JStr ''1''\<rparr>,
          \<lparr>date = JNull, name = JNull, amount = JNum 7, category = JStr ''B''\<rparr>,
          \<lparr>date = JNull, name = JNull, amount = JNum 7, category = JStr ''A''\<rparr>]))))
       = [''1'', ''2'', ''B'', ''A'']"
proof (intro allI conjI)
  fix rt
  let ?ts = "[\<lparr>date = JNull, name = JNull, amount = JNum 5, category = JStr ''2''\<rparr>,
          \<lparr>date = JNull, name = JNull, amount = JNum 5, category = JStr ''1''\<rparr>,
          \<lparr>date = JNull, name = JNull, amount = JNum 7, category = JStr ''B''\<rparr>,
          \<lparr>date = JNull, name = JNull, amount = JNum 7, category = JStr ''A''\<rparr>]"
  have l: "map (\<lambda>t. to_string rt (cat t)) (filter (\<lambda>t. 0 < expenseAmount rt t) ?ts)
           = [''2'', ''1'', ''B'', ''A'']"
    by (simp add: expenseAmount_def cat_def js_or_def js_and_def)
  show h: "list_all (\<lambda>k. k \<notin> set inherited_names)
       (map (\<lambda>t. to_string rt (cat t)) (filter (\<lambda>t. 0 < expenseAmount rt t) ?ts))"
    unfolding l by (simp add: inherited_names_def object_prototype_methods_def)
  have "map entry_name (map (\<lambda>e. \<lparr>entry_name = fst e, total = snd e\<rparr>)
         (own_property_order (snd (loop rt ?ts))))
       = sort_key decimal (filter is_array_index (rev (remdups (rev [''2'', ''1'', ''B'', ''A'']))))
         @ filter (\<lambda>k. \<not> is_array_index k) (rev (remdups (rev [''2'', ''1'', ''B'', ''A''])))"
    using C3_top_categories_order [of rt ?ts, THEN conjunct2, THEN mp, OF h, THEN conjunct2]
    unfolding l .
  also have "\<dots> = [''1'', ''2'', ''B'', ''A'']"
    by (simp add: is_array_index_def is_digit_def decimal_def digit_value_def)
  finally show "map entry_name (map (\<lambda>e. \<lparr>entry_name = fst e, total = snd e\<rparr>)
         (own_property_order (snd (loop rt ?ts)))) = [''1'', ''2'', ''B'', ''A'']" .
qed

section \<open>The sum of the category totals\<close>

lemma sum_assign:
  assumes "list_all (\<lambda>p. \<exists>n. snd p = TNum n) S"
  shows "sum_list (map (\<lambda>p. number_of (snd p))
           (assign S k (TNum ((case map_of S k of Some v \<Rightarrow> number_of v | None \<Rightarrow> 0) + e))))
         = sum_list (map (\<lambda>p. number_of (snd p)) S) + e"
  using assms by (induction S) auto

lemma positive_assign:
  assumes "list_all (\<lambda>p. 0 < number_of (snd p)) S" "0 < m"
  shows "list_all (\<lambda>p. 0 < number_of (snd p)) (assign S k (TNum m))"
  using assms by (induction S) auto

lemma map_of_positive:
  "list_all (\<lambda>p. 0 < number_of (snd p)) S \<Longrightarrow> map_of S k = Some v \<Longrightarrow> 0 < number_of v"
  by (induction S) (auto split: if_splits)

lemma accumulate_plain_value:
  assumes "k \<notin> set inherited_names" "list_all (\<lambda>p. \<exists>n. snd p = TNum n) S"
  shows "accumulate rt S k e
         = assign S k (TNum ((case map_of S k of Some v \<Rightarrow> number_of v | None \<Rightarrow> 0) + e))"
proof (cases "map_of S k")
  case None
  from assms(1) have a: "k \<noteq> ''__proto__''" and b: "k \<notin> set object_prototype_methods"
    by (simp_all add: inherited_names_def)
  show ?thesis unfolding accumulate_def None using a b by simp
next
  case (Some v)
  from map_of_numbers [OF assms(2) Some] obtain n where v: "v = TNum n" ..
  show ?thesis unfolding accumulate_def Some v by simp
qed

lemma loop_plain_sum:
  assumes "list_all (\<lambda>k. k \<notin> set inherited_names)
             (map (\<lambda>t. to_string rt (cat t)) (filter (\<lambda>t. 0 < expenseAmount rt t) ts))"
  shows "sum_list (map (\<lambda>p. number_of (snd p)) (snd (loop rt ts))) = fst (loop rt ts)
         \<and> list_all (\<lambda>p. 0 < number_of (snd p)) (snd (loop rt ts))"
  using assms
proof (induction ts rule: rev_induct)
  case Nil
  show ?case by (simp add: loop_def)
next
  case (snoc t ts)
  let ?L = "map (\<lambda>t. to_string rt (cat t)) (filter (\<lambda>t. 0 < expenseAmount rt t) ts)"
  from snoc.prems have pl: "list_all (\<lambda>k. k \<notin> set inherited_names) ?L" by simp
  obtain a S where aS: "loop rt ts = (a, S)" by (cases "loop rt ts")
  from snoc.IH [OF pl] aS have sum: "sum_list (map (\<lambda>p. number_of (snd p)) S) = a"
    and pos: "list_all (\<lambda>p. 0 < number_of (snd p)) S" by simp_all
  from loop_plain [OF pl] aS have nums: "list_all (\<lambda>p. \<exists>n. snd p = TNum n) S" by simp
  show ?case
  proof (cases "0 < expenseAmount rt t")
    case False
    then show ?thesis using sum pos aS by (simp add: loop_snoc)
  next
    case True
    let ?k = "to_string rt (cat t)"
    let ?e = "expenseAmount rt t"
    let ?old = "case map_of S ?k of Some v \<Rightarrow> number_of v | None \<Rightarrow> 0"
    from True snoc.prems have plain: "?k \<notin> set inherited_names" by simp
    have acc: "accumulate rt S ?k ?e = assign S ?k (TNum (?old + ?e))"
      by (rule accumulate_plain_value [OF plain nums])
    have "0 \<le> ?old"
    proof (cases "map_of S ?k")
      case None
      then show ?thesis by simp
    next
      case (Some v)
      with map_of_positive [OF pos Some] show ?thesis by simp
    qed
    with True have m: "0 < ?old + ?e" by simp
    from True aS acc have step: "loop rt (ts @ [t]) = (a + ?e, assign S ?k (TNum (?old + ?e)))"
      by (simp add: loop_snoc)
    have "sum_list (map (\<lambda>p. number_of (snd p)) (assign S ?k (TNum (?old + ?e)))) = a + ?e"
      using sum_assign [OF nums, of ?k ?e] sum by simp
    moreover have "list_all (\<lambda>p. 0 < number_of (snd p)) (assign S ?k (TNum (?old + ?e)))"
      by (rule positive_assign [OF pos m])
    ultimately show ?thesis unfolding step by simp
  qed
qed

lemma sum_insort_key:
  "sum_list (map f (insort_key g a xs)) = f a + sum_list (map f xs)"
  for f :: "'a \<Rightarrow> rat"
  by (induction xs) auto

lemma sum_sort_key:
  "sum_list (map f (sort_key g xs)) = sum_list (map f xs)"
  for f :: "'a \<Rightarrow> rat"
  by (induction xs) (simp_all add: sum_insort_key)

lemma sum_own_property_order:
  "sum_list (map f (own_property_order S)) = sum_list (map f S)"
  for f :: "string \<times> 'b \<Rightarrow> rat"
  by (induction S) (simp_all add: own_property_order_def sum_sort_key sum_insort_key)

lemma sum_take_le:
  fixes f :: "'a \<Rightarrow> rat"
  assumes "list_all (\<lambda>x. 0 < f x) xs"
  shows "sum_list (map f (take n xs)) \<le> sum_list (map f xs)"
proof -
  have "sum_list (map f xs) = sum_list (map f (take n xs)) + sum_list (map f (drop n xs))"
    by (metis append_take_drop_id map_append sum_list_append)
  moreover from assms have "0 \<le> sum_list (map f (drop n xs))"
    by (intro sum_list_nonneg) (auto simp: list_all_iff dest: in_set_dropD intro: less_imp_le)
  ultimately show ?thesis by simp
qed

lemma length_own_property_order: "length (own_property_order S) = length S"
  by (simp add: own_property_order_def sum_length_filter_compl)

lemma topCategories_plain:
  assumes "list_all (\<lambda>k. k \<notin> set inherited_names)
             (map (\<lambda>t. to_string rt (cat t)) (filter (\<lambda>t. 0 < expenseAmount rt t) ts))"
  shows "topCategories (computeInsights rt ts)
         = map (\<lambda>e. \<lparr>entry_name = fst e, total = snd e\<rparr>)
             (take 5 (sort_key (\<lambda>p. case snd p of TNum m \<Rightarrow> - m | TStr s \<Rightarrow> 0)
                (own_property_order (snd (loop rt ts)))))"
proof -
  from loop_plain [OF assms]
  have "list_all (\<lambda>p. \<exists>n. snd p = TNum n) (snd (loop rt ts))" by simp
  then have "list_all (\<lambda>p. \<exists>n. snd p = TNum n) (own_property_order (snd (loop rt ts)))"
    by (simp add: list_all_iff own_property_order_set)
  then show ?thesis
    by (simp add: computeInsights_def js_sort_numbers)
qed

text \<open>
  When no category label of the batch is a name that \<^verbatim>\<open>categoryTotals\<close> inherits, the
  accumulated totals of all categories sum to \<^verbatim>\<open>totalThisMonth\<close>, every entry of
  \<^verbatim>\<open>topCategories\<close> holds a number greater than 0, the entries of \<^verbatim>\<open>topCategories\<close> sum to
  at most \<^verbatim>\<open>totalThisMonth\<close>, and to exactly \<^verbatim>\<open>totalThisMonth\<close> when the batch has at most 5
  distinct labels among its transactions of positive magnitude.
\<close>

theorem category_totals_of_plain_labels:
  fixes rt :: runtime and ts :: "transaction list"
  defines "labels \<equiv> map (\<lambda>t. to_string rt (cat t)) (filter (\<lambda>t. 0 < expenseAmount rt t) ts)"
  assumes plain: "list_all (\<lambda>k. k \<notin> set inherited_names) labels"
  shows "sum_list (map (\<lambda>p. number_of (snd p)) (snd (loop rt ts)))
           = totalThisMonth (computeInsights rt ts)"
    and "list_all (\<lambda>c. \<exists>n. total c = TNum n \<and> 0 < n) (topCategories (computeInsights rt ts))"
    and "sum_list (map (\<lambda>c. number_of (total c)) (topCategories (computeInsights rt ts)))
           \<le> totalThisMonth (computeInsights rt ts)"
    and "length (remdups labels) \<le> 5 \<Longrightarrow>
         sum_list (map (\<lambda>c. number_of (total c)) (topCategories (computeInsights rt ts)))
           = totalThisMonth (computeInsights rt ts)"
proof -
  let ?key = "\<lambda>p::string \<times> total. case snd p of TNum m \<Rightarrow> - m | TStr s \<Rightarrow> (0::rat)"
  let ?S = "snd (loop rt ts)"
  let ?F = "sort_key ?key (own_property_order ?S)"
  let ?num = "\<lambda>p::string \<times> total. number_of (snd p)"
  note pl = plain [unfolded labels_def]
  from loop_plain_sum [OF pl]
  have sum: "sum_list (map ?num ?S) = fst (loop rt ts)"
    and pos: "list_all (\<lambda>p. 0 < ?num p) ?S" by simp_all
  from loop_plain [OF pl]
  have keys: "map fst ?S = rev (remdups (rev labels))"
    and nums: "list_all (\<lambda>p. \<exists>n. snd p = TNum n) ?S" by (simp_all add: labels_def)
  have tot: "totalThisMonth (computeInsights rt ts) = fst (loop rt ts)"
    by (simp add: computeInsights_def)
  have top: "topCategories (computeInsights rt ts)
             = map (\<lambda>e. \<lparr>entry_name = fst e, total = snd e\<rparr>) (take 5 ?F)"
    by (rule topCategories_plain [OF pl])
  have setF: "set ?F = set ?S" by (simp add: own_property_order_set)
  from pos have posF: "list_all (\<lambda>p. 0 < ?num p) ?F"
    unfolding list_all_iff setF .
  have sumF: "sum_list (map ?num ?F) = fst (loop rt ts)"
    by (simp add: sum_sort_key sum_own_property_order sum)
  have topsum: "sum_list (map (\<lambda>c. number_of (total c)) (topCategories (computeInsights rt ts)))
                = sum_list (map ?num (take 5 ?F))"
    by (simp add: top comp_def)
  show "sum_list (map ?num ?S) = totalThisMonth (computeInsights rt ts)"
    by (simp add: sum tot)
  show "list_all (\<lambda>c. \<exists>n. total c = TNum n \<and> 0 < n) (topCategories (computeInsights rt ts))"
  proof -
    have "\<exists>n. snd p = TNum n \<and> 0 < n" if "p \<in> set (take 5 ?F)" for p
    proof -
      from that have "p \<in> set ?F" by (rule in_set_takeD)
      then have pS: "p \<in> set ?S" unfolding setF .
      from nums pS obtain n where n: "snd p = TNum n" unfolding list_all_iff by blast
      from pos pS have "0 < number_of (snd p)" unfolding list_all_iff by blast
      with n show ?thesis by simp
    qed
    then show ?thesis by (simp add: top list_all_iff)
  qed
  show "sum_list (map (\<lambda>c. number_of (total c)) (topCategories (computeInsights rt ts)))
           \<le> totalThisMonth (computeInsights rt ts)"
    unfolding topsum tot sumF [symmetric] by (rule sum_take_le [OF posF])
  show "sum_list (map (\<lambda>c. number_of (total c)) (topCategories (computeInsights rt ts)))
           = totalThisMonth (computeInsights rt ts)" if "length (remdups labels) \<le> 5"
  proof -
    have "length ?S = length (map fst ?S)" by simp
    also have "\<dots> = length (remdups (rev labels))" by (simp only: keys length_rev)
    also have "\<dots> = length (remdups labels)" by (simp add: length_remdups_card_conv)
    finally have "length ?F \<le> 5" using that by (simp add: length_own_property_order)
    then have "take 5 ?F = ?F" by simp
    then show ?thesis unfolding topsum tot by (simp add: sumF)
  qed
qed

subsection \<open>Category labels that the accumulator object inherits\<close>

text \<open>
  Claim C9. A batch of one transaction of amount 5 with category \<^verbatim>\<open>__proto__\<close>: the total
  is 5 and no category is recorded, so the category totals sum to 0. With the category
  \<^verbatim>\<open>constructor\<close> the recorded total is a string, the source text of the inherited
  function followed by the rendering of 5, not a number greater than 0.
\<close>

theorem C9_proto_label_is_dropped:
  "computeInsights rt [\<lparr>date = JStr ''2024-01-05'', name = JStr ''Cafe'', amount = JNum 5,
       category = JStr ''__proto__''\<rparr>]
     = \<lparr>totalThisMonth = 5, topCategories = []\<rparr>
   \<and> computeInsights rt [\<lparr>date = JStr ''2024-01-05'', name = JStr ''Cafe'', amount = JNum 5,
       category = JStr ''constructor''\<rparr>]
     = \<lparr>totalThisMonth = 5,
        topCategories = [\<lparr>entry_name = ''constructor'',
           total = TStr (NativeSource rt ''constructor'' @ NumberToString rt 5)\<rparr>]\<rparr>"
  by (simp add: insights_defs)

section \<open>Which transactions are counted\<close>

text \<open>
  The total recorded for a label that the accumulator does not inherit is the sum of the
  magnitudes of the transactions with that label.
\<close>

lemma map_of_assign: "map_of (assign S k v) k' = (if k' = k then Some v else map_of S k')"
  by (induction S) auto

lemma sum_magnitudes_nonneg: "0 \<le> sum_list (map (expenseAmount rt) ts)"
  by (rule sum_list_nonneg) (auto simp: expenseAmount_nonneg)

lemma loop_plain_category:
  assumes "list_all (\<lambda>k. k \<notin> set inherited_names)
             (map (\<lambda>t. to_string rt (cat t)) (filter (\<lambda>t. 0 < expenseAmount rt t) ts))"
  shows "map_of (snd (loop rt ts)) k
         = (if 0 < sum_list (map (expenseAmount rt) (filter (\<lambda>t. to_string rt (cat t) = k) ts))
            then Some (TNum (sum_list (map (expenseAmount rt)
                   (filter (\<lambda>t. to_string rt (cat t) = k) ts))))
            else None)"
  using assms
proof (induction ts arbitrary: k rule: rev_induct)
  case Nil
  show ?case by (simp add: loop_def)
next
  case (snoc t ts)
  let ?L = "map (\<lambda>t. to_string rt (cat t)) (filter (\<lambda>t. 0 < expenseAmount rt t) ts)"
  let ?s = "\<lambda>k. sum_list (map (expenseAmount rt) (filter (\<lambda>t. to_string rt (cat t) = k) ts))"
  from snoc.prems have pl: "list_all (\<lambda>k. k \<notin> set inherited_names) ?L" by simp
  obtain a S where aS: "loop rt ts = (a, S)" by (cases "loop rt ts")
  from loop_plain [OF pl] aS have nums: "list_all (\<lambda>p. \<exists>n. snd p = TNum n) S" by simp
  have IH: "map_of S k = (if 0 < ?s k then Some (TNum (?s k)) else None)" for k
    using snoc.IH [OF pl, of k] aS by simp
  have nn: "0 \<le> ?s k" for k by (rule sum_magnitudes_nonneg)
  show ?case
  proof (cases "0 < expenseAmount rt t")
    case False
    with expenseAmount_nonneg [of rt t] have z: "expenseAmount rt t = 0" by simp
    have "snd (loop rt (ts @ [t])) = S" using False aS by (simp add: loop_snoc)
    then show ?thesis using z IH [of k] by simp
  next
    case True
    let ?k = "to_string rt (cat t)"
    let ?e = "expenseAmount rt t"
    from True snoc.prems have plain: "?k \<notin> set inherited_names" by simp
    have old: "(case map_of S ?k of Some v \<Rightarrow> number_of v | None \<Rightarrow> 0) = ?s ?k"
      using IH [of ?k] nn [of ?k] by auto
    have acc: "accumulate rt S ?k ?e = assign S ?k (TNum (?s ?k + ?e))"
      using accumulate_plain_value [OF plain nums, of rt ?e] old by simp
    from True aS acc have step: "snd (loop rt (ts @ [t])) = assign S ?k (TNum (?s ?k + ?e))"
      by (simp add: loop_snoc)
    show ?thesis
    proof (cases "k = ?k")
      case True
      have "0 < ?s ?k + ?e" using nn [of ?k] \<open>0 < ?e\<close> by simp
      then show ?thesis unfolding step map_of_assign using True by simp
    next
      case False
      then show ?thesis unfolding step map_of_assign using IH [of k] by auto
    qed
  qed
qed

text \<open>
  An iteration reads the date only through \<^verbatim>\<open>dayjs\<close> and the template literal, which
  accept every string, number, boolean, null and undefined.
\<close>

lemma body_raises_reads:
  assumes "amount t' = amount t" "category t' = category t" "name t' = name t"
    "scalar (date t)" "scalar (date t')"
  shows "body_raises rt t' = body_raises rt t"
proof -
  from assms(1,2) have "expenseAmount rt t' = expenseAmount rt t" "cat t' = cat t"
    by (simp_all add: expenseAmount_def cat_def)
  moreover from assms(4,5) have "\<not> unconvertible (date t)" "\<not> dayjs_raises rt (date t)"
    "\<not> unconvertible (date t')" "\<not> dayjs_raises rt (date t')"
    by (simp_all add: scalar_converts)
  ultimately show ?thesis using assms(1,2,3) by (simp add: body_raises_def)
qed

lemma list_ex_body_raises_reads:
  "list_all2 (\<lambda>t t'. amount t' = amount t \<and> category t' = category t \<and> name t' = name t
      \<and> scalar (date t) \<and> scalar (date t')) ts ts'
   \<Longrightarrow> list_ex (body_raises rt) ts' = list_ex (body_raises rt) ts"
proof (induction ts ts' rule: list_all2_induct)
  case Nil
  show ?case by simp
next
  case (Cons t ts t' ts')
  from Cons.hyps(1) have "body_raises rt t' = body_raises rt t"
    by (intro body_raises_reads) simp_all
  with Cons.IH show ?case by simp
qed

lemma list_ex_filter: "\<not> list_ex P xs \<Longrightarrow> \<not> list_ex P (filter Q xs)"
  by (induction xs) auto

text \<open>
  Claim C1. When no iteration raises, the call returns, \<^verbatim>\<open>totalThisMonth\<close> is the sum of
  the magnitudes of the whole batch, the magnitude of a numeric amount \<open>q\<close> being \<open>|q|\<close>,
  and leaving out the transactions of magnitude 0 changes nothing. Two batches that agree
  position by position on amount, category and name, and whose dates are strings,
  numbers, booleans, null or undefined, have the same outcome whatever these dates are.
  When no label of a transaction of positive magnitude is a name that \<^verbatim>\<open>categoryTotals\<close>
  inherits from \<^verbatim>\<open>Object.prototype\<close>, the total recorded for a label is the sum of the
  magnitudes of the transactions with that label, and a label has a total exactly when
  this sum is positive. With the label \<^verbatim>\<open>__proto__\<close> this fails: in the batch of a
  transaction of amount 3 labelled FOOD and one of amount 5 labelled \<^verbatim>\<open>__proto__\<close>, the
  second has magnitude 5 and is counted in \<^verbatim>\<open>totalThisMonth\<close>, which is 8, and it enters
  no category total: the only total is 3 for FOOD.
\<close>

theorem C1_proto_label_enters_no_category_total:
  "(\<not> list_ex (body_raises rt) ts
      \<longrightarrow> run_loop rt (0, []) ts = Inr (loop rt ts)
        \<and> computeInsights_call rt ts = Inr (computeInsights rt ts)
        \<and> fst (loop rt ts) = sum_list (map (expenseAmount rt) ts)
        \<and> totalThisMonth (computeInsights rt ts) = sum_list (map (expenseAmount rt) ts)
        \<and> computeInsights_call rt (filter (\<lambda>t. 0 < expenseAmount rt t) ts)
            = computeInsights_call rt ts)
   \<and> expenseAmount rt (t\<lparr>amount := JNum q\<rparr>) = \<bar>q\<bar>
   \<and> (list_all2 (\<lambda>t t'. amount t' = amount t \<and> category t' = category t \<and> name t' = name t
          \<and> scalar (date t) \<and> scalar (date t')) ts ts'
        \<longrightarrow> computeInsights_call rt ts' = computeInsights_call rt ts)
   \<and> (list_all (\<lambda>k. k \<notin> set inherited_names)
         (map (\<lambda>t. to_string rt (cat t)) (filter (\<lambda>t. 0 < expenseAmount rt t) ts))
        \<longrightarrow> map_of (snd (loop rt ts)) k
            = (if 0 < sum_list (map (expenseAmount rt) (filter (\<lambda>t. to_string rt (cat t) = k) ts))
               then Some (TNum (sum_list (map (expenseAmount rt)
                      (filter (\<lambda>t. to_string rt (cat t) = k) ts))))
               else None))
   \<and> expenseAmount rt \<lparr>date = JStr ''2024-01-06'', name = JStr ''Shop'', amount = JNum 5,
        category = JStr ''__proto__''\<rparr> = 5
   \<and> run_loop rt (0, [])
       [\<lparr>date = JStr ''2024-01-05'', name = JStr ''Cafe'', amount = JNum 3, category = JStr ''FOOD''\<rparr>,
        \<lparr>date = JStr ''2024-01-06'', name = JStr ''Shop'', amount = JNum 5, category = JStr ''__proto__''\<rparr>]
     = Inr (8, [(''FOOD'', TNum 3)])
   \<and> computeInsights_call rt
       [\<lparr>date = JStr ''2024-01-05'', name = JStr ''Cafe'', amount = JNum 3, category = JStr ''FOOD''\<rparr>,
        \<lparr>date = JStr ''2024-01-06'', name = JStr ''Shop'', amount = JNum 5, category = JStr ''__proto__''\<rparr>]
     = Inr \<lparr>totalThisMonth = 8, topCategories = [\<lparr>entry_name = ''FOOD'', total = TNum 3\<rparr>]\<rparr>"
proof (intro conjI impI)
  assume r: "\<not> list_ex (body_raises rt) ts"
  then show "run_loop rt (0, []) ts = Inr (loop rt ts)"
    by (simp add: run_loop_foldl loop_def)
  from r show c: "computeInsights_call rt ts = Inr (computeInsights rt ts)"
    by (simp add: computeInsights_call_returns)
  show "fst (loop rt ts) = sum_list (map (expenseAmount rt) ts)"
    by (simp add: loop_def fst_foldl_loop_body)
  show "totalThisMonth (computeInsights rt ts) = sum_list (map (expenseAmount rt) ts)"
    by (simp add: computeInsights_def loop_def fst_foldl_loop_body)
  have "computeInsights rt (filter (\<lambda>t. 0 < expenseAmount rt t) ts) = computeInsights rt ts"
    by (simp add: computeInsights_def loop_def foldl_loop_body_filter)
  moreover from r have "\<not> list_ex (body_raises rt) (filter (\<lambda>t. 0 < expenseAmount rt t) ts)"
    by (rule list_ex_filter)
  ultimately show "computeInsights_call rt (filter (\<lambda>t. 0 < expenseAmount rt t) ts)
            = computeInsights_call rt ts"
    using r by (simp add: computeInsights_call_returns)
next
  show "expenseAmount rt (t\<lparr>amount := JNum q\<rparr>) = \<bar>q\<bar>"
    by (simp add: expenseAmount_def)
next
  assume a: "list_all2 (\<lambda>t t'. amount t' = amount t \<and> category t' = category t \<and> name t' = name t
          \<and> scalar (date t) \<and> scalar (date t')) ts ts'"
  then have "list_all2 (\<lambda>t t'. expenseAmount rt t' = expenseAmount rt t \<and> cat t' = cat t) ts ts'"
    by (rule list_all2_mono) (simp add: expenseAmount_def cat_def)
  then have "computeInsights rt ts' = computeInsights rt ts"
    by (rule computeInsights_reads)
  with list_ex_body_raises_reads [OF a, of rt]
  show "computeInsights_call rt ts' = computeInsights_call rt ts"
    by (simp add: computeInsights_call_returns)
next
  assume "list_all (\<lambda>k. k \<notin> set inherited_names)
         (map (\<lambda>t. to_string rt (cat t)) (filter (\<lambda>t. 0 < expenseAmount rt t) ts))"
  then show "map_of (snd (loop rt ts)) k
            = (if 0 < sum_list (map (expenseAmount rt) (filter (\<lambda>t. to_string rt (cat t) = k) ts))
               then Some (TNum (sum_list (map (expenseAmount rt)
                      (filter (\<lambda>t. to_string rt (cat t) = k) ts))))
               else None)"
    by (rule loop_plain_category)
next
  show "expenseAmount rt \<lparr>date = JStr ''2024-01-06'', name = JStr ''Shop'', amount = JNum 5,
        category = JStr ''__proto__''\<rparr> = 5"
    by (simp add: expenseAmount_def)
  show "run_loop rt (0, [])
       [\<lparr>date = JStr ''2024-01-05'', name = JStr ''Cafe'', amount = JNum 3, category = JStr ''FOOD''\<rparr>,
        \<lparr>date = JStr ''2024-01-06'', name = JStr ''Shop'', amount = JNum 5, category = JStr ''__proto__''\<rparr>]
     = Inr (8, [(''FOOD'', TNum 3)])"
    by (simp add: body_raises_def expenseAmount_def cat_def js_or_def js_and_def accumulate_def
          object_prototype_methods_def)
  show "computeInsights_call rt
       [\<lparr>date = JStr ''2024-01-05'', name = JStr ''Cafe'', amount = JNum 3, category = JStr ''FOOD''\<rparr>,
        \<lparr>date = JStr ''2024-01-06'', name = JStr ''Shop'', amount = JNum 5, category = JStr ''__proto__''\<rparr>]
     = Inr \<lparr>totalThisMonth = 8, topCategories = [\<lparr>entry_name = ''FOOD'', total = TNum 3\<rparr>]\<rparr>"
    by (simp add: computeInsights_call_def body_raises_def insights_defs)
qed

text \<open>
  Claim C1 at a batch of three transactions, one of them of amount 0, and the same batch
  with other dates.
\<close>

theorem C1_witness:
  "\<forall>rt. \<not> list_ex (body_raises rt)
       [\<lparr>date = JStr ''2024-01-05'', name = JStr ''Cafe'', amount = JNum (- 45), category = JStr ''FOOD''\<rparr>,
        \<lparr>date = JStr ''2024-01-07'', name = JStr ''Air'', amount = JNum 0, category = JStr ''TRAVEL''\<rparr>,
        \<lparr>date = JStr ''2024-02-01'', name = JStr ''Bar'', amount = JNum 5, category = JStr ''FOOD''\<rparr>]
     \<and> computeInsights_call rt
       [\<lparr>date = JStr ''2024-01-05'', name = JStr ''Cafe'', amount = JNum (- 45), category = JStr ''FOOD''\<rparr>,
        \<lparr>date = JStr ''2024-01-07'', name = JStr ''Air'', amount = JNum 0, category = JStr ''TRAVEL''\<rparr>,
        \<lparr>date = JStr ''2024-02-01'', name = JStr ''Bar'', amount = JNum 5, category = JStr ''FOOD''\<rparr>]
       = Inr \<lparr>totalThisMonth = 50, topCategories = [\<lparr>entry_name = ''FOOD'', total = TNum 50\<rparr>]\<rparr>
     \<and> list_all2 (\<lambda>t t'. amount t' = amount t \<and> category t' = category t \<and> name t' = name t
          \<and> scalar (date t) \<and> scalar (date t'))
       [\<lparr>date = JStr ''2024-01-05'', name = JStr ''Cafe'', amount = JNum (- 45), category = JStr ''FOOD''\<rparr>,
        \<lparr>date = JStr ''2024-01-07'', name = JStr ''Air'', amount = JNum 0, category = JStr ''TRAVEL''\<rparr>,
        \<lparr>date = JStr ''2024-02-01'', name = JStr ''Bar'', amount = JNum 5, category = JStr ''FOOD''\<rparr>]
       [\<lparr>date = JStr ''1999-12-31'', name = JStr ''Cafe'', amount = JNum (- 45), category = JStr ''FOOD''\<rparr>,
        \<lparr>date = JNull, name = JStr ''Air'', amount = JNum 0, category = JStr ''TRAVEL''\<rparr>,
        \<lparr>date = JNum 17, name = JStr ''Bar'', amount = JNum 5, category = JStr ''FOOD''\<rparr>]
     \<and> computeInsights_call rt
       [\<lparr>date = JStr ''1999-12-31'', name = JStr ''Cafe'', amount = JNum (- 45), category = JStr ''FOOD''\<rparr>,
        \<lparr>date = JNull, name = JStr ''Air'', amount = JNum 0, category = JStr ''TRAVEL''\<rparr>,
        \<lparr>date = JNum 17, name = JStr ''Bar'', amount = JNum 5, category = JStr ''FOOD''\<rparr>]
       = Inr \<lparr>totalThisMonth = 50, topCategories = [\<lparr>entry_name = ''FOOD'', total = TNum 50\<rparr>]\<rparr>
     \<and> list_all (\<lambda>k. k \<notin> set inherited_names)
         (map (\<lambda>t. to_string rt (cat t)) (filter (\<lambda>t. 0 < expenseAmount rt t)
       [\<lparr>date = JStr ''2024-01-05'', name = JStr ''Cafe'', amount = JNum (- 45), category = JStr ''FOOD''\<rparr>,
        \<lparr>date = JStr ''2024-01-07'', name = JStr ''Air'', amount = JNum 0, category = JStr ''TRAVEL''\<rparr>,
        \<lparr>date = JStr ''2024-02-01'', name = JStr ''Bar'', amount = JNum 5, category = JStr ''FOOD''\<rparr>]))
     \<and> map_of (snd (loop rt
       [\<lparr>date = JStr ''2024-01-05'', name = JStr ''Cafe'', amount = JNum (- 45), category = JStr ''FOOD''\<rparr>,
        \<lparr>date = JStr ''2024-01-07'', name = JStr ''Air'', amount = JNum 0, category = JStr ''TRAVEL''\<rparr>,
        \<lparr>date = JStr ''2024-02-01'', name = JStr ''Bar'', amount = JNum 5, category = JStr ''FOOD''\<rparr>]))
         ''FOOD'' = Some (TNum 50)
     \<and> map_of (snd (loop rt
       [\<lparr>date = JStr ''2024-01-05'', name = JStr ''Cafe'', amount = JNum (- 45), category = JStr ''FOOD''\<rparr>,
        \<lparr>date = JStr ''2024-01-07'', name = JStr ''Air'', amount = JNum 0, category = JStr ''TRAVEL''\<rparr>,
        \<lparr>date = JStr ''2024-02-01'', name = JStr ''Bar'', amount = JNum 5, category = JStr ''FOOD''\<rparr>]))
         ''TRAVEL'' = None"
proof (intro allI conjI)
  fix rt
  let ?A = "[\<lparr>date = JStr ''2024-01-05'', name = JStr ''Cafe'', amount = JNum (- 45), category = JStr ''FOOD''\<rparr>,
        \<lparr>date = JStr ''2024-01-07'', name = JStr ''Air'', amount = JNum 0, category = JStr ''TRAVEL''\<rparr>,
        \<lparr>date = JStr ''2024-02-01'', name = JStr ''Bar'', amount = JNum 5, category = JStr ''FOOD''\<rparr>]"
  let ?B = "[\<lparr>date = JStr ''1999-12-31'', name = JStr ''Cafe'', amount = JNum (- 45), category = JStr ''FOOD''\<rparr>,
        \<lparr>date = JNull, name = JStr ''Air'', amount = JNum 0, category = JStr ''TRAVEL''\<rparr>,
        \<lparr>date = JNum 17, name = JStr ''Bar'', amount = JNum 5, category = JStr ''FOOD''\<rparr>]"
  have v: "computeInsights rt ?A
           = \<lparr>totalThisMonth = 50, topCategories = [\<lparr>entry_name = ''FOOD'', total = TNum 50\<rparr>]\<rparr>"
    by (simp add: insights_defs)
  show h1: "\<not> list_ex (body_raises rt) ?A"
    by (simp add: body_raises_def expenseAmount_def cat_def js_or_def js_and_def)
  from C1_proto_label_enters_no_category_total [where rt = rt and ts = ?A, THEN conjunct1, THEN mp, OF h1,
      THEN conjunct2, THEN conjunct1]
  show a: "computeInsights_call rt ?A
       = Inr \<lparr>totalThisMonth = 50, topCategories = [\<lparr>entry_name = ''FOOD'', total = TNum 50\<rparr>]\<rparr>"
    unfolding v .
  show h2: "list_all2 (\<lambda>t t'. amount t' = amount t \<and> category t' = category t \<and> name t' = name t
          \<and> scalar (date t) \<and> scalar (date t')) ?A ?B"
    by simp
  from C1_proto_label_enters_no_category_total [where rt = rt and ts = ?A and ts' = ?B,
      THEN conjunct2, THEN conjunct2, THEN conjunct1, THEN mp, OF h2]
  show "computeInsights_call rt ?B
       = Inr \<lparr>totalThisMonth = 50, topCategories = [\<lparr>entry_name = ''FOOD'', total = TNum 50\<rparr>]\<rparr>"
    unfolding a .
  show h3: "list_all (\<lambda>k. k \<notin> set inherited_names)
         (map (\<lambda>t. to_string rt (cat t)) (filter (\<lambda>t. 0 < expenseAmount rt t) ?A))"
    by (simp add: expenseAmount_def cat_def js_or_def js_and_def inherited_names_def
          object_prototype_methods_def)
  have e: "map (expenseAmount rt) ?A = [45, 0, 5]" by (simp add: expenseAmount_def)
  have s1: "sum_list (map (expenseAmount rt) (filter (\<lambda>t. to_string rt (cat t) = ''FOOD'') ?A)) = 50"
    by (simp add: expenseAmount_def cat_def js_or_def js_and_def)
  have s2: "sum_list (map (expenseAmount rt) (filter (\<lambda>t. to_string rt (cat t) = ''TRAVEL'') ?A)) = 0"
    by (simp add: expenseAmount_def cat_def js_or_def js_and_def)
  from C1_proto_label_enters_no_category_total [where rt = rt and ts = ?A and k = "''FOOD''",
      THEN conjunct2, THEN conjunct2, THEN conjunct2, THEN conjunct1, THEN mp, OF h3]
  show "map_of (snd (loop rt ?A)) ''FOOD'' = Some (TNum 50)"
    unfolding s1 by simp
  from C1_proto_label_enters_no_category_total [where rt = rt and ts = ?A and k = "''TRAVEL''",
      THEN conjunct2, THEN conjunct2, THEN conjunct2, THEN conjunct1, THEN mp, OF h3]
  show "map_of (snd (loop rt ?A)) ''TRAVEL'' = None"
    unfolding s2 by simp
qed

end
